theory Spec2Isabelle
  imports Complex_Main
begin

section \<open>Numbers\<close>

text \<open>
  The engine computes in double-precision floats. A finite float is modelled by the real
  number it denotes; the special values that a division by zero produces in numpy
  (infinities, not-a-number) are kept, because several code paths divide by a count or
  by a spread that can be zero and then compare the result. The percentages that the
  analyzers report and the quality score are computed with the rounding of IEEE 754
  binary64 (\<open>round_double\<close> below); the order statistics, the fences and the detectors'
  scores are taken exactly.
\<close>

datatype fl = Fin real | PInf | NInf | NaN

text \<open>numpy true division of two finite values, taken exactly; the divisor zero is the
  positive zero (a length, a size, or an absolute value).\<close>

definition fdiv :: "real \<Rightarrow> real \<Rightarrow> fl" where
  "fdiv x y =
     (if y \<noteq> 0 then Fin (x / y)
      else if 0 < x then PInf
      else if x < 0 then NInf
      else NaN)"

text \<open>
  Rounding a real to the nearest binary64 value, ties to even. The magnitude is scaled by
  powers of two into \<open>[2^52, 2^53)\<close>, where the floats are the integers, unless the
  exponent reaches -1074 first (the subnormal range, where the spacing stays \<open>2^-1074\<close>);
  a result of \<open>2^1024\<close> or more overflows to an infinity.
\<close>

definition round_half_even :: "real \<Rightarrow> int" where
  "round_half_even y =
     (let f = \<lfloor>y\<rfloor>; r = y - of_int f
      in if r < 1 / 2 then f else if 1 / 2 < r then f + 1 else if even f then f else f + 1)"

fun scale_up :: "nat \<Rightarrow> real \<Rightarrow> int \<Rightarrow> real \<times> int" where
  "scale_up 0 x e = (x, e)"
| "scale_up (Suc n) x e =
     (if x < 2 ^ 52 \<and> - 1074 < e then scale_up n (2 * x) (e - 1) else (x, e))"

fun scale_down :: "nat \<Rightarrow> real \<Rightarrow> int \<Rightarrow> real \<times> int" where
  "scale_down 0 x e = (x, e)"
| "scale_down (Suc n) x e =
     (if 2 ^ 53 \<le> x then scale_down n (x / 2) (e + 1) else (x, e))"

definition pow2 :: "int \<Rightarrow> real" where
  "pow2 e = (if 0 \<le> e then 2 ^ nat e else 1 / 2 ^ nat (- e))"

definition round_double :: "real \<Rightarrow> fl" where
  "round_double x =
     (if x = 0 then Fin 0
      else (let (y, e) = (if \<bar>x\<bar> < 2 ^ 52 then scale_up 1074 \<bar>x\<bar> 0
                          else scale_down 972 \<bar>x\<bar> 0);
                r = of_int (round_half_even y) * pow2 e
            in if 2 ^ 1024 \<le> r then (if 0 < x then PInf else NInf)
               else Fin (if 0 < x then r else - r)))"

text \<open>Float division and float multiplication by a finite constant, each rounded once.
  The operands of the divisions are counts, which are floats exactly (they are far below
  \<open>2^53\<close>); the divisor zero is the positive zero.\<close>

definition ddiv :: "real \<Rightarrow> real \<Rightarrow> fl" where
  "ddiv x y =
     (if y \<noteq> 0 then round_double (x / y)
      else if 0 < x then PInf
      else if x < 0 then NInf
      else NaN)"

fun dscale :: "fl \<Rightarrow> real \<Rightarrow> fl" where
  "dscale (Fin r) c = round_double (r * c)"
| "dscale PInf c = (if 0 < c then PInf else if c < 0 then NInf else NaN)"
| "dscale NInf c = (if 0 < c then NInf else if c < 0 then PInf else NaN)"
| "dscale NaN c = NaN"

text \<open>Float subtraction, rounded once.\<close>

fun dsub :: "fl \<Rightarrow> fl \<Rightarrow> fl" where
  "dsub (Fin a) (Fin b) = round_double (a - b)"
| "dsub NaN _ = NaN"
| "dsub _ NaN = NaN"
| "dsub PInf PInf = NaN"
| "dsub NInf NInf = NaN"
| "dsub PInf _ = PInf"
| "dsub NInf _ = NInf"
| "dsub (Fin a) PInf = NInf"
| "dsub (Fin a) NInf = PInf"

text \<open>The comparison \<open>a < b\<close> of floats: false as soon as one side is not-a-number.\<close>

fun fl_less :: "fl \<Rightarrow> fl \<Rightarrow> bool" where
  "fl_less (Fin a) (Fin b) = (a < b)"
| "fl_less NaN _ = False"
| "fl_less _ NaN = False"
| "fl_less NInf NInf = False"
| "fl_less NInf _ = True"
| "fl_less _ NInf = False"
| "fl_less PInf _ = False"
| "fl_less (Fin a) PInf = True"

text \<open>\<open>np.abs\<close> on a float.\<close>

fun fl_abs :: "fl \<Rightarrow> fl" where
  "fl_abs (Fin r) = Fin \<bar>r\<bar>"
| "fl_abs PInf = PInf"
| "fl_abs NInf = PInf"
| "fl_abs NaN = NaN"

text \<open>Python's builtin \<open>min(a, b)\<close> and \<open>max(a, b)\<close>: the first argument is kept
  unless the second compares strictly smaller (larger).\<close>

definition py_min :: "fl \<Rightarrow> fl \<Rightarrow> fl" where
  "py_min a b = (if fl_less b a then b else a)"

definition py_max :: "fl \<Rightarrow> fl \<Rightarrow> fl" where
  "py_max a b = (if fl_less a b then b else a)"

section \<open>Tables\<close>

text \<open>
  A cell is absent (\<open>NaN\<close>/\<open>None\<close>), a number or a string. A column (a pandas Series
  inside a DataFrame) has a dtype and one cell per row; a table has row labels (the
  DataFrame index) and named columns in order. Integer columns are represented by
  \<open>Float64\<close>; the cells of a \<open>Datetime64\<close> column are numbers (the time stamps).
\<close>

datatype cell = Null | Num real | Str string

datatype dtype = Float64 | Object | Datetime64 | Category

record series =
  dtype :: dtype
  cells :: "cell list"

record table =
  index :: "nat list"
  columns :: "(string \<times> series) list"

definition wf_table :: "table \<Rightarrow> bool" where
  "wf_table t \<longleftrightarrow>
     distinct (map fst (columns t)) \<and>
     list_all (\<lambda>c. length (cells (snd c)) = length (index t)) (columns t)"

text \<open>\<open>len(df)\<close>, \<open>df.size\<close>, \<open>series.isnull().sum()\<close>.\<close>

definition len_df :: "table \<Rightarrow> nat" where
  "len_df t = length (index t)"

definition df_size :: "table \<Rightarrow> nat" where
  "df_size t = length (index t) * length (columns t)"

definition isnull_sum :: "series \<Rightarrow> nat" where
  "isnull_sum s = length (filter (\<lambda>c. c = Null) (cells s))"

text \<open>All cells of a table, column after column.\<close>

definition all_cells :: "table \<Rightarrow> cell list" where
  "all_cells t = concat (map (\<lambda>c. cells (snd c)) (columns t))"

section \<open>Missing-data analysis\<close>

record missing_data =
  total_missing :: nat
  total_cells :: nat
  missing_percentage :: fl
  column_missing :: "(string \<times> nat) list"
  column_missing_pct :: "(string \<times> fl) list"
  severity :: "string option"

definition assess_missing_severity :: "fl \<Rightarrow> string" where
  "assess_missing_severity pct =
     (if fl_less pct (Fin 5) then ''low''
      else if fl_less pct (Fin 20) then ''medium''
      else ''high'')"

text \<open>\<open>DataQualityAnalyzer._analyze_missing_data\<close> (the missing-pattern listing, which
  no other component reads, is left out).\<close>

definition analyze_missing_data :: "table \<Rightarrow> missing_data" where
  "analyze_missing_data df =
     (let total_missing = sum_list (map (\<lambda>c. isnull_sum (snd c)) (columns df));
          total_cells = df_size df;
          missing_percentage = dscale (ddiv (real total_missing) (real total_cells)) 100;
          column_missing = map (\<lambda>c. (fst c, isnull_sum (snd c))) (columns df);
          column_missing_pct =
            map (\<lambda>c. (fst c, dscale (ddiv (real (snd c)) (real (len_df df))) 100)) column_missing
      in \<lparr> total_missing = total_missing,
           total_cells = total_cells,
           missing_percentage = missing_percentage,
           column_missing = column_missing,
           column_missing_pct = column_missing_pct,
           severity = Some (assess_missing_severity missing_percentage) \<rparr>)"

text \<open>\<open>AutoDataCleaner._analyze_missing_data\<close>: the same figures, without a severity.\<close>

definition cleaner_analyze_missing_data :: "table \<Rightarrow> missing_data" where
  "cleaner_analyze_missing_data df =
     (let total_missing = sum_list (map (\<lambda>c. isnull_sum (snd c)) (columns df));
          total_cells = df_size df;
          missing_percentage = dscale (ddiv (real total_missing) (real total_cells)) 100;
          column_missing = map (\<lambda>c. (fst c, isnull_sum (snd c))) (columns df);
          column_missing_pct =
            map (\<lambda>c. (fst c, dscale (ddiv (real (snd c)) (real (len_df df))) 100)) column_missing
      in \<lparr> total_missing = total_missing,
           total_cells = total_cells,
           missing_percentage = missing_percentage,
           column_missing = column_missing,
           column_missing_pct = column_missing_pct,
           severity = None \<rparr>)"

section \<open>Library functions taken as parameters\<close>

datatype error = KeyError | ValueError | TypeError | ZeroDivisionError | AttributeError | BadReference

text \<open>
  The engine calls pandas and scikit-learn for parsing, model-based imputation, anomaly
  models, string operations and scaling. Their results are parameters of the model:
  every theorem holds for whatever these functions compute. A function that can raise
  returns \<open>None\<close> (or \<open>Inl\<close> with the message) in that case.
\<close>

record libs =
  parses_num :: "string \<Rightarrow> bool"
    \<comment> \<open>\<open>pd.to_numeric(errors='coerce')\<close> converts this string to a number\<close>
  to_datetime_ok :: "series \<Rightarrow> bool"
    \<comment> \<open>\<open>pd.to_datetime(series)\<close> returns instead of raising\<close>
  empty_series_dtype :: dtype
    \<comment> \<open>dtype of \<open>pd.Series()\<close>: float64 before pandas 2, object since\<close>
  most_frequent_impute :: "cell list \<Rightarrow> cell list option"
    \<comment> \<open>\<open>SimpleImputer(strategy='most_frequent').fit_transform\<close> on one column\<close>
  knn_impute :: "nat \<Rightarrow> cell list list \<Rightarrow> cell list list option"
    \<comment> \<open>\<open>KNNImputer(n_neighbors=k).fit_transform\<close>, column-wise\<close>
  fillna_sentinel :: "dtype \<Rightarrow> cell list \<Rightarrow> series option"
    \<comment> \<open>\<open>fillna(-999)\<close> on a datetime or categorical column\<close>
  isolation_forest :: "cell list list \<Rightarrow> string + bool list"
    \<comment> \<open>rows predicted \<open>-1\<close> by \<open>IsolationForest(contamination=0.1, random_state=42)\<close>\<close>
  local_outlier_factor :: "cell list list \<Rightarrow> string + bool list"
    \<comment> \<open>rows predicted \<open>-1\<close> by \<open>LocalOutlierFactor(contamination=0.1)\<close>\<close>
  conv_datetime :: "series \<Rightarrow> cell list option"
    \<comment> \<open>\<open>pd.to_datetime(errors='coerce')\<close>\<close>
  conv_numeric :: "series \<Rightarrow> cell list option"
    \<comment> \<open>\<open>pd.to_numeric(errors='coerce')\<close>\<close>
  str_accessor_ok :: "cell list \<Rightarrow> bool"
    \<comment> \<open>the \<open>.str\<close> accessor accepts this object column\<close>
  str_strip :: "string \<Rightarrow> string"
  collapse_ws :: "string \<Rightarrow> string"
    \<comment> \<open>regex replacement of \<open>\\s+\<close> by one space\<close>
  replace_ci :: "string \<Rightarrow> string \<Rightarrow> string \<Rightarrow> string"
    \<comment> \<open>\<open>str.replace(abbr, full, case=False, regex=False)\<close>\<close>
  str_title :: "string \<Rightarrow> string"
  str_capitalize :: "string \<Rightarrow> string"
  str_lower :: "string \<Rightarrow> string"
  standard_scale :: "cell list list \<Rightarrow> cell list list option"
    \<comment> \<open>\<open>StandardScaler().fit_transform\<close>, column-wise\<close>
  label_encode :: "cell list \<Rightarrow> cell list"
    \<comment> \<open>\<open>LabelEncoder().fit_transform\<close> on the column cast to strings\<close>
  basic_info_error :: "table \<Rightarrow> error option"
    \<comment> \<open>the exception \<open>_analyze_basic_info\<close> raises on this table, if any\<close>
  distributions_error :: "table \<Rightarrow> error option"
    \<comment> \<open>the exception \<open>_analyze_distributions\<close> raises on this table, if any\<close>
  correlations_error :: "table \<Rightarrow> error option"
    \<comment> \<open>the exception \<open>_analyze_correlations\<close> raises on this table, if any\<close>

section \<open>Order statistics\<close>

text \<open>\<open>Series.quantile(q)\<close> with pandas' default linear interpolation, on a column
  without nulls. Every caller skips the empty column before it asks for a quantile.\<close>

definition quantile :: "real list \<Rightarrow> real \<Rightarrow> real" where
  "quantile xs q =
     (let s = sort xs;
          n = length s;
          h = real (n - 1) * q;
          lo = nat \<lfloor>h\<rfloor>;
          hi = min (lo + 1) (n - 1)
      in s ! lo + (h - real lo) * (s ! hi - s ! lo))"

text \<open>\<open>Series.median()\<close> and \<open>np.median\<close>: the middle value, or the mean of the two
  middle values.\<close>

definition median :: "real list \<Rightarrow> real" where
  "median xs =
     (let s = sort xs; n = length s
      in if odd n then s ! (n div 2) else (s ! (n div 2 - 1) + s ! (n div 2)) / 2)"

definition mean :: "real list \<Rightarrow> real" where
  "mean xs = sum_list xs / real (length xs)"

text \<open>\<open>df[col].dropna()\<close> of a numeric column: the present values with their row labels.\<close>

definition dropna :: "nat list \<Rightarrow> cell list \<Rightarrow> (nat \<times> real) list" where
  "dropna idx cs =
     concat (map (\<lambda>(i, c). case c of Num r \<Rightarrow> [(i, r)] | _ \<Rightarrow> []) (zip idx cs))"

text \<open>The fences \<open>[Q1 - 1.5 * IQR, Q3 + 1.5 * IQR]\<close>.\<close>

definition iqr_fences :: "real list \<Rightarrow> real \<times> real" where
  "iqr_fences xs =
     (let Q1 = quantile xs 0.25;
          Q3 = quantile xs 0.75;
          IQR = Q3 - Q1;
          lower_bound = Q1 - 1.5 * IQR;
          upper_bound = Q3 + 1.5 * IQR
      in (lower_bound, upper_bound))"

text \<open>\<open>select_dtypes(include=[np.number])\<close>.\<close>

definition numeric_cols :: "table \<Rightarrow> (string \<times> series) list" where
  "numeric_cols df = filter (\<lambda>c. dtype (snd c) = Float64) (columns df)"

section \<open>Outlier detection\<close>

text \<open>The three statistical detectors of \<open>_statistical_outlier_detection\<close>, each on the
  non-null values of one column and returning the labels of the flagged rows.\<close>

definition iqr_flagged :: "(nat \<times> real) list \<Rightarrow> nat list" where
  "iqr_flagged col_data =
     (let (lower_bound, upper_bound) = iqr_fences (map snd col_data)
      in map fst (filter (\<lambda>(i, x). x < lower_bound \<or> x > upper_bound) col_data))"

definition zscore_flagged :: "(nat \<times> real) list \<Rightarrow> nat list" where
  "zscore_flagged col_data =
     (let vals = map snd col_data;
          m = mean vals;
          sd = sqrt (sum_list (map (\<lambda>x. (x - m)\<^sup>2) vals) / real (length vals))
      in map fst (filter (\<lambda>(i, x). fl_less (Fin 3) (fl_abs (fdiv (x - m) sd))) col_data))"

definition mad :: "real list \<Rightarrow> real" where
  "mad vals = median (map (\<lambda>x. \<bar>x - median vals\<bar>) vals)"

definition modified_zscore_flagged :: "(nat \<times> real) list \<Rightarrow> nat list" where
  "modified_zscore_flagged col_data =
     (let vals = map snd col_data;
          med = median vals;
          mad = mad vals
      in map fst (filter (\<lambda>(i, x). fl_less (Fin 3.5) (fl_abs (fdiv (0.6745 * (x - med)) mad)))
                    col_data))"

record col_outliers =
  iqr_outliers :: nat
  zscore_outliers :: nat
  modified_zscore_outliers :: nat
  iqr_bounds :: "real \<times> real"
  outlier_indices :: "(string \<times> nat list) list"

definition statistical_outlier_detection ::
  "table \<Rightarrow> (string \<times> series) list \<Rightarrow> (string \<times> col_outliers) list" where
  "statistical_outlier_detection df ncols =
     concat (map (\<lambda>(col, s).
        (let col_data = dropna (index df) (cells s)
         in if length col_data = 0 then []
            else [(col,
              \<lparr> iqr_outliers = length (iqr_flagged col_data),
                zscore_outliers = length (zscore_flagged col_data),
                modified_zscore_outliers = length (modified_zscore_flagged col_data),
                iqr_bounds = iqr_fences (map snd col_data),
                outlier_indices =
                  [(''iqr'', iqr_flagged col_data),
                   (''zscore'', zscore_flagged col_data),
                   (''modified_zscore'', modified_zscore_flagged col_data)] \<rparr>)])) ncols)"

text \<open>An entry of the dictionary returned by \<open>_ml_outlier_detection\<close>: the text under
  \<open>"message"\<close>, a detector's result, or a detector's \<open>{"error": ...}\<close>.\<close>

datatype ml_entry = MLText string | MLOutliers nat "nat list" | MLError string

text \<open>\<open>fillna(median)\<close> of the numeric columns: a column without any value stays null.\<close>

definition fillna_median :: "cell list \<Rightarrow> cell list" where
  "fillna_median cs =
     (let vals = concat (map (\<lambda>c. case c of Num r \<Rightarrow> [r] | _ \<Rightarrow> []) cs)
      in if vals = [] then cs
         else map (\<lambda>c. case c of Null \<Rightarrow> Num (median vals) | _ \<Rightarrow> c) cs)"

definition flagged_labels :: "nat list \<Rightarrow> bool list \<Rightarrow> nat list" where
  "flagged_labels idx flags = map fst (filter snd (zip idx flags))"

definition ml_outlier_detection ::
  "libs \<Rightarrow> table \<Rightarrow> (string \<times> series) list \<Rightarrow> (string \<times> ml_entry) list" where
  "ml_outlier_detection L df ncols =
     (let numeric_df = map (\<lambda>c. fillna_median (cells (snd c))) ncols
      in if len_df df < 10 then [(''message'', MLText ''Insufficient data for ML outlier detection'')]
         else
           [(''isolation_forest'',
               case isolation_forest L numeric_df of
                 Inl e \<Rightarrow> MLError e
               | Inr flags \<Rightarrow> (let idx = flagged_labels (index df) flags
                               in MLOutliers (length idx) idx)),
            (''local_outlier_factor'',
               case local_outlier_factor L numeric_df of
                 Inl e \<Rightarrow> MLError e
               | Inr flags \<Rightarrow> (let idx = flagged_labels (index df) flags
                               in MLOutliers (length idx) idx))])"

record combined =
  total_outliers :: nat
  high_confidence_outliers :: "nat list"
  all_outlier_indices :: "nat set"

text \<open>\<open>_combine_outlier_results\<close>. The Python set of row labels is a set here; the list
  made from it at the end has no specified order and is kept as the set.\<close>

definition combine_outlier_results ::
  "(string \<times> col_outliers) list \<Rightarrow> (string \<times> ml_entry) list \<Rightarrow> combined" where
  "combine_outlier_results statistical ml_based =
     (let s0 = {};
          s1 = fold (\<lambda>(col, results) acc.
                  fold (\<lambda>(method, indices) a. a \<union> set indices) (outlier_indices results) acc)
                statistical s0;
          s2 = fold (\<lambda>(method, results) acc.
                  case results of MLOutliers n indices \<Rightarrow> acc \<union> set indices | _ \<Rightarrow> acc)
                ml_based s1
      in \<lparr> total_outliers = card s2,
           high_confidence_outliers = [],
           all_outlier_indices = s2 \<rparr>)"

text \<open>The result of \<open>_analyze_outliers\<close>: only a message when the table has no numeric
  column, the three sections otherwise.\<close>

datatype outlier_analysis =
    OutlierMessage string
  | OutlierReport "(string \<times> col_outliers) list" "(string \<times> ml_entry) list" combined

definition analyze_outliers :: "libs \<Rightarrow> table \<Rightarrow> outlier_analysis" where
  "analyze_outliers L df =
     (let ncols = numeric_cols df
      in if length ncols = 0 then OutlierMessage ''No numeric columns found for outlier analysis''
         else (let statistical = statistical_outlier_detection df ncols;
                   ml_based = ml_outlier_detection L df ncols
               in OutlierReport statistical ml_based
                    (combine_outlier_results statistical ml_based)))"

section \<open>Duplicates\<close>

definition rows_of :: "table \<Rightarrow> cell list list" where
  "rows_of df = map (\<lambda>i. map (\<lambda>c. cells (snd c) ! i) (columns df)) [0..<len_df df]"

text \<open>\<open>df.duplicated()\<close>: a row is flagged when an earlier row equals it (two absent cells
  count as equal).\<close>

fun duplicated :: "cell list list \<Rightarrow> cell list list \<Rightarrow> bool list" where
  "duplicated seen [] = []"
| "duplicated seen (r # rs) = (r \<in> set seen) # duplicated (r # seen) rs"

definition assess_duplicate_severity :: "fl \<Rightarrow> string" where
  "assess_duplicate_severity duplicate_pct =
     (if fl_less duplicate_pct (Fin 1) then ''low''
      else if fl_less duplicate_pct (Fin 10) then ''medium''
      else ''high'')"

record duplicates =
  exact_duplicates :: nat
  exact_duplicate_pct :: fl
  dup_severity :: string

text \<open>\<open>_analyze_duplicates\<close> (the near-duplicate listing is left out: nothing reads it).\<close>

definition analyze_duplicates :: "table \<Rightarrow> duplicates" where
  "analyze_duplicates df =
     (let n = length (filter id (duplicated [] (rows_of df)));
          pct = dscale (ddiv (real n) (real (len_df df))) 100
      in \<lparr> exact_duplicates = n,
           exact_duplicate_pct = pct,
           dup_severity = assess_duplicate_severity pct \<rparr>)"

section \<open>Quality score\<close>

text \<open>The part of \<open>analysis_results\<close> that the scorer and the cleaning engine read.\<close>

datatype recommendation =
    HighMissingData fl | DuplicateData fl | OutliersDetected nat | MixedTypes string

record col_types =
  mixed_types :: "string list"
  suggested_dtype :: string

record analysis_results =
  shape :: "nat \<times> nat"
  missing_data :: missing_data
  duplicates :: duplicates
  outliers :: outlier_analysis
  data_types :: "(string \<times> col_types) list"
  quality_score :: fl
  recommendations :: "recommendation list"

text \<open>\<open>outliers.get("combined", {}).get("total_outliers", 0)\<close>.\<close>

definition combined_total :: "outlier_analysis \<Rightarrow> nat" where
  "combined_total outl =
     (case outl of OutlierReport st ml comb \<Rightarrow> total_outliers comb | OutlierMessage m \<Rightarrow> 0)"

text \<open>\<open>_calculate_quality_score\<close>, statement by statement.\<close>

definition calculate_quality_score :: "analysis_results \<Rightarrow> fl" where
  "calculate_quality_score ar =
     (let score = Fin 100;
          missing_pct = missing_percentage (missing_data ar);
          score = dsub score (dscale missing_pct 2);
          duplicate_pct = exact_duplicate_pct (duplicates ar);
          score = dsub score (dscale duplicate_pct 1.5);
          n_outliers = combined_total (outliers ar);
          total_rows = fst (shape ar);
          outlier_pct = (if total_rows > 0
                         then dscale (ddiv (real n_outliers) (real total_rows)) 100
                         else Fin 0);
          score = dsub score (dscale outlier_pct 0.5)
      in py_max (Fin 0) (py_min (Fin 100) score))"

section \<open>Type suggestion\<close>

definition numeric_ok :: "libs \<Rightarrow> cell \<Rightarrow> bool" where
  "numeric_ok L c = (case c of Null \<Rightarrow> False | Num r \<Rightarrow> True | Str s \<Rightarrow> parses_num L s)"

text \<open>\<open>pd.to_numeric(series, errors='coerce').notna().sum()\<close>. A datetime column is
  viewed as 64-bit integers, so every one of its cells counts, the absent ones included;
  any other column is converted cell by cell.\<close>

definition numeric_count :: "libs \<Rightarrow> series \<Rightarrow> nat" where
  "numeric_count L s =
     (if dtype s = Datetime64 then length (cells s)
      else length (filter (numeric_ok L) (cells s)))"

text \<open>\<open>series.nunique()\<close>: the number of distinct values, nulls not counted.\<close>

definition nunique :: "series \<Rightarrow> nat" where
  "nunique s = card (set (filter (\<lambda>c. c \<noteq> Null) (cells s)))"

text \<open>\<open>DataQualityAnalyzer._suggest_dtype\<close>. The first quotient has a numpy integer as
  numerator and is not-a-number on an empty column; the second divides two Python
  integers and raises there.\<close>

definition suggest_dtype :: "libs \<Rightarrow> series \<Rightarrow> error + string" where
  "suggest_dtype L s =
     (if fl_less (Fin 0.8) (fdiv (real (numeric_count L s)) (real (length (cells s))))
      then Inr ''numeric''
      else if to_datetime_ok L s then Inr ''datetime''
      else if length (cells s) = 0 then Inl ZeroDivisionError
      else (let unique_ratio = real (nunique s) / real (length (cells s))
            in if unique_ratio < 0.5 then Inr ''categorical'' else Inr ''object''))"

text \<open>\<open>AutoDataCleaner._suggest_optimal_dtype\<close>: the same, after a test for a column
  that is already a datetime column.\<close>

definition suggest_optimal_dtype :: "libs \<Rightarrow> series \<Rightarrow> error + string" where
  "suggest_optimal_dtype L s =
     (if dtype s = Datetime64 then Inr ''datetime''
      else if fl_less (Fin 0.8) (fdiv (real (numeric_count L s)) (real (length (cells s))))
      then Inr ''numeric''
      else if to_datetime_ok L s then Inr ''datetime''
      else if length (cells s) = 0 then Inl ZeroDivisionError
      else (let unique_ratio = real (nunique s) / real (length (cells s))
            in if unique_ratio < 0.5 then Inr ''categorical'' else Inr ''object''))"

section \<open>The analysis run\<close>

text \<open>\<open>_check_mixed_types\<close>: numbers and non-numbers side by side. (The date-format
  test of the source collects at most the one tag \<open>"detected"\<close> and never reports.)\<close>

definition check_mixed_types :: "libs \<Rightarrow> series \<Rightarrow> string list" where
  "check_mixed_types L s =
     (let numeric_count = numeric_count L s;
          string_count = length (cells s) - numeric_count
      in if numeric_count > 0 \<and> string_count > 0 then [''mixed_numeric_string''] else [])"

text \<open>\<open>_analyze_data_types\<close>, column after column. The format checks use the \<open>.str\<close>
  accessor on an object column, which raises when the column holds no string; their
  findings are left out (nothing reads them).\<close>

fun analyze_data_types :: "libs \<Rightarrow> (string \<times> series) list \<Rightarrow> error + (string \<times> col_types) list" where
  "analyze_data_types L [] = Inr []"
| "analyze_data_types L ((col, s) # cols) =
     (if dtype s = Object \<and> \<not> str_accessor_ok L (cells s) then Inl AttributeError
      else (case suggest_dtype L s of
              Inl e \<Rightarrow> Inl e
            | Inr d \<Rightarrow>
                (case analyze_data_types L cols of
                   Inl e \<Rightarrow> Inl e
                 | Inr rest \<Rightarrow>
                     Inr ((col, \<lparr> mixed_types = check_mixed_types L s, suggested_dtype = d \<rparr>)
                          # rest))))"

text \<open>\<open>_generate_recommendations\<close>: the rule that fired and the figure its message
  quotes.\<close>

definition generate_recommendations :: "analysis_results \<Rightarrow> recommendation list" where
  "generate_recommendations ar =
     (if fl_less (Fin 5) (missing_percentage (missing_data ar))
      then [HighMissingData (missing_percentage (missing_data ar))] else [])
     @ (if fl_less (Fin 1) (exact_duplicate_pct (duplicates ar))
        then [DuplicateData (exact_duplicate_pct (duplicates ar))] else [])
     @ (case outliers ar of
          OutlierReport st ml comb \<Rightarrow>
            if total_outliers comb > 0 then [OutliersDetected (total_outliers comb)] else []
        | OutlierMessage m \<Rightarrow> [])
     @ concat (map (\<lambda>(col, a). if mixed_types a \<noteq> [] then [MixedTypes col] else [])
                 (data_types ar))"

text \<open>\<open>analyze_dataset\<close>: the seven analyses in the order of the source, the first
  exception ending the run; then the score and the recommendations. The results of the
  basic-info, distribution and correlation analyses are not kept: nothing reads them.\<close>

definition analyze_dataset :: "libs \<Rightarrow> table \<Rightarrow> error + analysis_results" where
  "analyze_dataset L df =
     (case basic_info_error L df of
        Some e \<Rightarrow> Inl e
      | None \<Rightarrow>
          (let md = analyze_missing_data df;
               dup = analyze_duplicates df;
               outl = analyze_outliers L df
           in case analyze_data_types L (columns df) of
                Inl e \<Rightarrow> Inl e
              | Inr types \<Rightarrow>
                  (case distributions_error L df of
                     Some e \<Rightarrow> Inl e
                   | None \<Rightarrow>
                       (case correlations_error L df of
                          Some e \<Rightarrow> Inl e
                        | None \<Rightarrow>
                            (let ar = \<lparr> shape = (len_df df, length (columns df)),
                                        missing_data = md,
                                        duplicates = dup,
                                        outliers = outl,
                                        data_types = types,
                                        quality_score = Fin 0,
                                        recommendations = [] \<rparr>;
                                 ar1 = ar\<lparr> quality_score := calculate_quality_score ar \<rparr>
                             in Inr (ar1\<lparr> recommendations := generate_recommendations ar1 \<rparr>))))))"

section \<open>Cleaning: imputation\<close>

text \<open>What the cleaning engine is given as \<open>analysis_results\<close>: a dictionary in which
  the two sections it reads may be missing.\<close>

record report =
  rp_missing_data :: "missing_data option"
  rp_outliers :: "outlier_analysis option"

definition report_of :: "analysis_results \<Rightarrow> report" where
  "report_of ar = \<lparr> rp_missing_data = Some (missing_data ar), rp_outliers = Some (outliers ar) \<rparr>"

definition get_col :: "table \<Rightarrow> string \<Rightarrow> series option" where
  "get_col df col = map_of (columns df) col"

definition col_names :: "table \<Rightarrow> string list" where
  "col_names df = map fst (columns df)"

text \<open>\<open>df.drop(columns=[col], inplace=True)\<close>.\<close>

definition drop_columns :: "table \<Rightarrow> string \<Rightarrow> table" where
  "drop_columns df col = df\<lparr> columns := filter (\<lambda>c. fst c \<noteq> col) (columns df) \<rparr>"

text \<open>Storing a whole column under a name: an existing column keeps its position, a new
  one goes to the end.\<close>

definition set_col :: "table \<Rightarrow> string \<Rightarrow> series \<Rightarrow> table" where
  "set_col df col s =
     (if col \<in> set (col_names df)
      then df\<lparr> columns := map (\<lambda>c. if fst c = col then (col, s) else c) (columns df) \<rparr>
      else df\<lparr> columns := columns df @ [(col, s)] \<rparr>)"

text \<open>The right-hand side of \<open>df[col] = ...\<close>: a bare array, stored by position, or a
  Series, stored by row label.\<close>

datatype assigned = Arr dtype "cell list" | Ser dtype "nat list" "cell list"

definition reindex :: "nat list \<Rightarrow> cell list \<Rightarrow> nat list \<Rightarrow> cell list" where
  "reindex idx cs target =
     map (\<lambda>l. case map_of (zip idx cs) l of Some c \<Rightarrow> c | None \<Rightarrow> Null) target"

definition setitem :: "table \<Rightarrow> string \<Rightarrow> assigned \<Rightarrow> error + table" where
  "setitem df col v =
     (case v of
        Arr d cs \<Rightarrow>
          if length cs \<noteq> len_df df then Inl ValueError
          else Inr (set_col df col \<lparr> dtype = d, cells = cs \<rparr>)
      | Ser d idx cs \<Rightarrow>
          Inr (set_col df col \<lparr> dtype = d, cells = reindex idx cs (index df) \<rparr>))"

definition is_numeric_dtype :: "dtype \<Rightarrow> bool" where
  "is_numeric_dtype d = (d = Float64)"

text \<open>\<open>_select_imputation_method\<close>.\<close>

definition select_imputation_method ::
  "table \<Rightarrow> string \<Rightarrow> nat \<Rightarrow> missing_data \<Rightarrow> error + string" where
  "select_imputation_method df col missing_count md =
     (case map_of (column_missing_pct md) col of
        None \<Rightarrow> Inl KeyError
      | Some missing_pct \<Rightarrow>
          if fl_less (Fin 50) missing_pct then Inr ''drop_column''
          else (case get_col df col of
                  None \<Rightarrow> Inl KeyError
                | Some s \<Rightarrow>
                    if is_numeric_dtype (dtype s) then
                      (if fl_less missing_pct (Fin 5) then Inr ''mean''
                       else if fl_less missing_pct (Fin 20) then Inr ''median''
                       else Inr ''knn'')
                    else
                      (if fl_less missing_pct (Fin 10) then Inr ''mode''
                       else Inr ''constant'')))"

definition present :: "cell list \<Rightarrow> real list" where
  "present cs = concat (map (\<lambda>c. case c of Num r \<Rightarrow> [r] | _ \<Rightarrow> []) cs)"

text \<open>\<open>SimpleImputer(strategy=...).fit_transform(df[[col]]).flatten()\<close> for the mean and
  the median: a non-numeric column is refused, a column without any value is dropped by
  the imputer (the flattened result is empty), otherwise every null becomes the statistic
  of the present values.\<close>

definition simple_impute :: "(real list \<Rightarrow> real) \<Rightarrow> series \<Rightarrow> error + cell list" where
  "simple_impute stat s =
     (if dtype s \<noteq> Float64 then Inl ValueError
      else if present (cells s) = [] then Inr []
      else Inr (map (\<lambda>c. case c of Null \<Rightarrow> Num (stat (present (cells s))) | _ \<Rightarrow> c) (cells s)))"

definition fillna :: "cell \<Rightarrow> cell list \<Rightarrow> cell list" where
  "fillna v cs = map (\<lambda>c. if c = Null then v else c) cs"

fun ffill_from :: "cell \<Rightarrow> cell list \<Rightarrow> cell list" where
  "ffill_from prev [] = []"
| "ffill_from prev (c # cs) =
     (if c = Null then prev # ffill_from prev cs else c # ffill_from c cs)"

definition ffill :: "cell list \<Rightarrow> cell list" where
  "ffill cs = ffill_from Null cs"

definition bfill :: "cell list \<Rightarrow> cell list" where
  "bfill cs = rev (ffill_from Null (rev cs))"

text \<open>\<open>_apply_imputation\<close>: the table as the call leaves it (some branches change it in
  place) and the value returned, which the caller stores under the column's name.\<close>

definition apply_imputation ::
  "libs \<Rightarrow> table \<Rightarrow> string \<Rightarrow> string \<Rightarrow> error + (table \<times> assigned)" where
  "apply_imputation L df col method =
     (case get_col df col of
        None \<Rightarrow> Inl KeyError
      | Some s \<Rightarrow>
        if method = ''drop_column'' then
          (let df1 = drop_columns df col
           in Inr (df1,
                case get_col df1 col of
                  Some s1 \<Rightarrow> Ser (dtype s1) (index df1) (cells s1)
                | None \<Rightarrow> Ser (empty_series_dtype L) [] []))
        else if method = ''mean'' then
          (case simple_impute mean s of
             Inl e \<Rightarrow> Inl e
           | Inr imputed_values \<Rightarrow> Inr (df, Arr Float64 imputed_values))
        else if method = ''median'' then
          (case simple_impute median s of
             Inl e \<Rightarrow> Inl e
           | Inr imputed_values \<Rightarrow> Inr (df, Arr Float64 imputed_values))
        else if method = ''mode'' then
          (case most_frequent_impute L (cells s) of
             None \<Rightarrow> Inl ValueError
           | Some imputed_values \<Rightarrow>
               Inr (df, Arr (if dtype s = Float64 then Float64 else Object) imputed_values))
        else if method = ''knn'' then
          (let ncols = map fst (numeric_cols df);
               feature_cols = filter (\<lambda>c. c \<noteq> col) ncols
           in if col \<in> set ncols \<and> length ncols > 1 \<and> feature_cols \<noteq> [] then
                (let temp_df = map (\<lambda>c. case get_col df c of Some sc \<Rightarrow> cells sc | None \<Rightarrow> [])
                                 (feature_cols @ [col])
                 in case knn_impute L (min 5 (len_df df)) temp_df of
                      None \<Rightarrow> Inl ValueError
                    | Some m \<Rightarrow>
                        if length m \<noteq> length temp_df \<or> \<not> list_all (\<lambda>c. length c = len_df df) m
                        then Inl ValueError
                        else (let df1 = set_col df col \<lparr> dtype = Float64, cells = last m \<rparr>
                              in Inr (df1, Ser Float64 (index df1) (last m))))
              else
                (case simple_impute median s of
                   Inl e \<Rightarrow> Inl e
                 | Inr imputed_values \<Rightarrow> Inr (df, Arr Float64 imputed_values)))
        else if method = ''constant'' then
          (if dtype s = Object then
             (let df1 = set_col df col (s\<lparr> cells := fillna (Str ''Unknown'') (cells s) \<rparr>)
              in Inr (df1, Ser Object (index df1) (fillna (Str ''Unknown'') (cells s))))
           else if dtype s = Float64 then
             (let df1 = set_col df col (s\<lparr> cells := fillna (Num (- 999)) (cells s) \<rparr>)
              in Inr (df1, Ser Float64 (index df1) (fillna (Num (- 999)) (cells s))))
           else
             (case fillna_sentinel L (dtype s) (cells s) of
                None \<Rightarrow> Inl TypeError
              | Some s1 \<Rightarrow> Inr (set_col df col s1, Ser (dtype s1) (index df) (cells s1))))
        else
          (let filled = bfill (ffill (cells s));
               df1 = set_col df col (s\<lparr> cells := filled \<rparr>)
           in Inr (df1, Ser (dtype s) (index df1) filled)))"

text \<open>The loop of \<open>_handle_missing_data\<close> over the column names the table had when the
  loop started.\<close>

fun impute_loop :: "libs \<Rightarrow> missing_data \<Rightarrow> string list \<Rightarrow> table \<Rightarrow> error + table" where
  "impute_loop L md [] df = Inr df"
| "impute_loop L md (col # cols) df =
     (case get_col df col of
        None \<Rightarrow> Inl KeyError
      | Some s \<Rightarrow>
          (let missing_count = isnull_sum s
           in if missing_count > 0 then
                (case select_imputation_method df col missing_count md of
                   Inl e \<Rightarrow> Inl e
                 | Inr imputation_method \<Rightarrow>
                     (case apply_imputation L df col imputation_method of
                        Inl e \<Rightarrow> Inl e
                      | Inr (df1, v) \<Rightarrow>
                          (case setitem df1 col v of
                             Inl e \<Rightarrow> Inl e
                           | Inr df2 \<Rightarrow> impute_loop L md cols df2)))
              else impute_loop L md cols df))"

definition handle_missing_data :: "libs \<Rightarrow> table \<Rightarrow> report option \<Rightarrow> error + table" where
  "handle_missing_data L df analysis =
     (let md = (case analysis of
                  None \<Rightarrow> cleaner_analyze_missing_data df
                | Some r \<Rightarrow> (case rp_missing_data r of
                               Some m \<Rightarrow> m
                             | None \<Rightarrow> cleaner_analyze_missing_data df))
      in impute_loop L md (col_names df) df)"

section \<open>Cleaning: outlier treatment\<close>

text \<open>Keeping the rows whose flag is set, in every column and in the index.\<close>

definition keep_rows :: "table \<Rightarrow> bool list \<Rightarrow> table" where
  "keep_rows df keep =
     \<lparr> index = map fst (filter snd (zip (index df) keep)),
       columns = map (\<lambda>(n, s). (n, s\<lparr> cells := map fst (filter snd (zip (cells s) keep)) \<rparr>))
                   (columns df) \<rparr>"

text \<open>\<open>df.drop(index=outlier_indices)\<close>: a label that the table does not have raises.\<close>

definition drop_index :: "table \<Rightarrow> nat set \<Rightarrow> error + table" where
  "drop_index df labels =
     (if labels \<subseteq> set (index df)
      then Inr (keep_rows df (map (\<lambda>l. l \<notin> labels) (index df)))
      else Inl KeyError)"

text \<open>\<open>Series.clip(lower, upper)\<close> on one value.\<close>

definition clip :: "real \<Rightarrow> real \<Rightarrow> real \<Rightarrow> real" where
  "clip x lower upper = min (max x lower) upper"

text \<open>The body of the capping loop for one numeric column.\<close>

definition cap_column :: "nat list \<Rightarrow> series \<Rightarrow> series" where
  "cap_column idx s =
     (let col_data = dropna idx (cells s)
      in if length col_data = 0 then s
         else (let (lower_bound, upper_bound) = iqr_fences (map snd col_data);
                   outliers_mask = map (\<lambda>c. case c of
                                              Num x \<Rightarrow> x < lower_bound \<or> x > upper_bound
                                            | _ \<Rightarrow> False) (cells s);
                   outliers_count = length (filter id outliers_mask)
               in if outliers_count > 0
                  then s\<lparr> cells := map (\<lambda>(m, c). case c of
                                                   Num x \<Rightarrow> if m then Num (clip x lower_bound upper_bound)
                                                            else c
                                                 | _ \<Rightarrow> c)
                                      (zip outliers_mask (cells s)) \<rparr>
                  else s))"

definition cap_outliers :: "table \<Rightarrow> table" where
  "cap_outliers df =
     fold (\<lambda>col d. case get_col d col of
                      Some s \<Rightarrow> set_col d col (cap_column (index d) s)
                    | None \<Rightarrow> d)
          (map fst (numeric_cols df)) df"

text \<open>\<open>_handle_outliers\<close>. The flag of the result tells whether the table returned is a
  new object (made by the row removal) or the one that was passed in.\<close>

definition handle_outliers :: "table \<Rightarrow> report option \<Rightarrow> error + (bool \<times> table)" where
  "handle_outliers df analysis =
     (case analysis of
        None \<Rightarrow> Inr (False, df)
      | Some r \<Rightarrow>
          (case rp_outliers r of
             None \<Rightarrow> Inr (False, df)
           | Some outl \<Rightarrow>
               (case (case outl of
                        OutlierReport st ml comb \<Rightarrow>
                          if all_outlier_indices comb \<noteq> {}
                          then (case drop_index df (all_outlier_indices comb) of
                                  Inl e \<Rightarrow> Inl e
                                | Inr df1 \<Rightarrow> Inr (True, df1))
                          else Inr (False, df)
                      | OutlierMessage m \<Rightarrow> Inr (False, df)) of
                  Inl e \<Rightarrow> Inl e
                | Inr (fresh, df1) \<Rightarrow> Inr (fresh, cap_outliers df1))))"

section \<open>Cleaning: the remaining stages\<close>

text \<open>\<open>_remove_duplicates\<close>: \<open>df.drop_duplicates()\<close> keeps the first of equal rows.\<close>

definition remove_duplicates :: "table \<Rightarrow> table" where
  "remove_duplicates df = keep_rows df (map Not (duplicated [] (rows_of df)))"

definition dtype_str :: "dtype \<Rightarrow> string" where
  "dtype_str d =
     (case d of Float64 \<Rightarrow> ''float64'' | Object \<Rightarrow> ''object''
      | Datetime64 \<Rightarrow> ''datetime64[ns]'' | Category \<Rightarrow> ''category'')"

text \<open>The loop of \<open>_standardize_data_types\<close>; a conversion that raises leaves the column
  as it is.\<close>

fun standardize_loop :: "libs \<Rightarrow> string list \<Rightarrow> table \<Rightarrow> error + table" where
  "standardize_loop L [] df = Inr df"
| "standardize_loop L (col # cols) df =
     (case get_col df col of
        None \<Rightarrow> Inl KeyError
      | Some s \<Rightarrow>
          (let original_dtype = dtype_str (dtype s)
           in case suggest_optimal_dtype L s of
                Inl e \<Rightarrow> Inl e
              | Inr new_dtype \<Rightarrow>
                  if new_dtype \<noteq> original_dtype then
                    (if new_dtype = ''datetime'' then
                       (case conv_datetime L s of
                          None \<Rightarrow> standardize_loop L cols df
                        | Some cs \<Rightarrow>
                            (case setitem df col (Arr Datetime64 cs) of
                               Inl e \<Rightarrow> standardize_loop L cols df
                             | Inr df1 \<Rightarrow> standardize_loop L cols df1))
                     else if new_dtype = ''numeric'' then
                       (case conv_numeric L s of
                          None \<Rightarrow> standardize_loop L cols df
                        | Some cs \<Rightarrow>
                            (case setitem df col (Arr Float64 cs) of
                               Inl e \<Rightarrow> standardize_loop L cols df
                             | Inr df1 \<Rightarrow> standardize_loop L cols df1))
                     else if new_dtype = ''categorical'' then
                       standardize_loop L cols (set_col df col (s\<lparr> dtype := Category \<rparr>))
                     else standardize_loop L cols df)
                  else standardize_loop L cols df))"

definition standardize_data_types :: "libs \<Rightarrow> table \<Rightarrow> error + table" where
  "standardize_data_types L df = standardize_loop L (col_names df) df"

text \<open>A \<open>.str\<close> method on a column: cells that are not strings come out null.\<close>

definition str_map :: "(string \<Rightarrow> string) \<Rightarrow> cell list \<Rightarrow> cell list" where
  "str_map f cs = map (\<lambda>c. case c of Str x \<Rightarrow> Str (f x) | _ \<Rightarrow> Null) cs"

definition abbreviations :: "(string \<times> string) list" where
  "abbreviations =
     [(''usa'', ''United States''), (''uk'', ''United Kingdom''),
      (''u.s.a.'', ''United States''), (''u.k.'', ''United Kingdom'')]"

definition standardize_strings :: "libs \<Rightarrow> cell list \<Rightarrow> cell list" where
  "standardize_strings L cs =
     fold (\<lambda>(abbr, full) acc. str_map (replace_ci L abbr full) acc) abbreviations
          (str_map (collapse_ws L) (str_map (str_strip L) cs))"

fun is_prefix :: "string \<Rightarrow> string \<Rightarrow> bool" where
  "is_prefix [] s = True"
| "is_prefix (w # ws) [] = False"
| "is_prefix (w # ws) (c # cs) = (w = c \<and> is_prefix ws cs)"

text \<open>Python's \<open>word in text\<close> on strings.\<close>

fun contains :: "string \<Rightarrow> string \<Rightarrow> bool" where
  "contains [] w = (w = [])"
| "contains (c # cs) w = (is_prefix w (c # cs) \<or> contains cs w)"

definition standardize_case :: "libs \<Rightarrow> string \<Rightarrow> cell list \<Rightarrow> cell list" where
  "standardize_case L name cs =
     (if name \<noteq> [] \<and> list_ex (\<lambda>word. contains (str_lower L name) word)
                         [''name'', ''title'', ''category'']
      then str_map (str_title L) cs
      else str_map (str_capitalize L) cs)"

fun inconsistencies_loop :: "libs \<Rightarrow> string list \<Rightarrow> table \<Rightarrow> error + table" where
  "inconsistencies_loop L [] df = Inr df"
| "inconsistencies_loop L (col # cols) df =
     (case get_col df col of
        None \<Rightarrow> Inl KeyError
      | Some s \<Rightarrow>
          if dtype s = Object then
            (if str_accessor_ok L (cells s)
             then inconsistencies_loop L cols
                    (set_col df col
                       (s\<lparr> cells := standardize_case L col (standardize_strings L (cells s)) \<rparr>))
             else Inl AttributeError)
          else inconsistencies_loop L cols df)"

definition handle_inconsistencies :: "libs \<Rightarrow> table \<Rightarrow> error + table" where
  "handle_inconsistencies L df = inconsistencies_loop L (col_names df) df"

text \<open>\<open>df[numeric_cols] = matrix\<close>: the columns of the matrix, stored in order.\<close>

fun set_cols :: "table \<Rightarrow> string list \<Rightarrow> cell list list \<Rightarrow> table" where
  "set_cols df (n # ns) (c # cs) = set_cols (set_col df n \<lparr> dtype = Float64, cells = c \<rparr>) ns cs"
| "set_cols df _ _ = df"

definition encode_loop :: "libs \<Rightarrow> string list \<Rightarrow> table \<Rightarrow> table" where
  "encode_loop L cols df =
     fold (\<lambda>col d. case get_col d col of
                      Some s \<Rightarrow>
                        if nunique s < 50
                        then set_col d col \<lparr> dtype = Float64, cells = label_encode L (cells s) \<rparr>
                        else d
                    | None \<Rightarrow> d) cols df"

text \<open>\<open>_apply_transformations\<close>: one scaler over all numeric columns, then one encoder
  per categorical or text column with fewer than 50 distinct values.\<close>

definition apply_transformations :: "libs \<Rightarrow> table \<Rightarrow> error + table" where
  "apply_transformations L df =
     (let ncols = numeric_cols df
      in case (if length ncols > 0
               then (case standard_scale L (map (\<lambda>c. cells (snd c)) ncols) of
                       None \<Rightarrow> Inl ValueError
                     | Some m \<Rightarrow>
                         if length m \<noteq> length ncols \<or> \<not> list_all (\<lambda>c. length c = len_df df) m
                         then Inl ValueError
                         else Inr (set_cols df (map fst ncols) m))
               else Inr df) of
           Inl e \<Rightarrow> Inl e
         | Inr df1 \<Rightarrow>
             (let categorical_cols =
                    map fst (filter (\<lambda>c. dtype (snd c) = Category \<or> dtype (snd c) = Object)
                               (columns df1))
              in Inr (encode_loop L categorical_cols df1)))"

section \<open>The cleaning pipeline on a store of tables\<close>

text \<open>
  DataFrames are objects: the caller and the pipeline hold references. The store maps
  a reference to the table it denotes. A stage either changes the table behind a
  reference or makes a new object and returns its reference. When a stage raises, the
  working copy it was changing is unreachable from then on, and the store is returned
  as it was before that stage.
\<close>

record store =
  frames :: "nat \<rightharpoonup> table"
  next_ref :: nat

definition wf_store :: "store \<Rightarrow> bool" where
  "wf_store st \<longleftrightarrow> (\<forall>a. a \<ge> next_ref st \<longrightarrow> frames st a = None)"

definition new_frame :: "store \<Rightarrow> table \<Rightarrow> nat \<times> store" where
  "new_frame st t =
     (next_ref st, st\<lparr> frames := (frames st)(next_ref st \<mapsto> t), next_ref := Suc (next_ref st) \<rparr>)"

text \<open>A stage that works on the object it is given, and one that returns a new object.\<close>

definition in_place :: "(table \<Rightarrow> error + table) \<Rightarrow> nat \<Rightarrow> store \<Rightarrow> (error + nat) \<times> store" where
  "in_place f a st =
     (case frames st a of
        None \<Rightarrow> (Inl BadReference, st)
      | Some t \<Rightarrow>
          (case f t of
             Inl e \<Rightarrow> (Inl e, st)
           | Inr t1 \<Rightarrow> (Inr a, st\<lparr> frames := (frames st)(a \<mapsto> t1) \<rparr>)))"

definition as_new :: "(table \<Rightarrow> error + table) \<Rightarrow> nat \<Rightarrow> store \<Rightarrow> (error + nat) \<times> store" where
  "as_new f a st =
     (case frames st a of
        None \<Rightarrow> (Inl BadReference, st)
      | Some t \<Rightarrow>
          (case f t of
             Inl e \<Rightarrow> (Inl e, st)
           | Inr t1 \<Rightarrow> (let (b, st1) = new_frame st t1 in (Inr b, st1))))"

definition handle_outliers_st :: "report option \<Rightarrow> nat \<Rightarrow> store \<Rightarrow> (error + nat) \<times> store" where
  "handle_outliers_st analysis a st =
     (case frames st a of
        None \<Rightarrow> (Inl BadReference, st)
      | Some t \<Rightarrow>
          (case handle_outliers t analysis of
             Inl e \<Rightarrow> (Inl e, st)
           | Inr (fresh, t1) \<Rightarrow>
               if fresh then (let (b, st1) = new_frame st t1 in (Inr b, st1))
               else (Inr a, st\<lparr> frames := (frames st)(a \<mapsto> t1) \<rparr>)))"

definition and_then ::
  "(error + nat) \<times> store \<Rightarrow> (nat \<Rightarrow> store \<Rightarrow> (error + nat) \<times> store) \<Rightarrow> (error + nat) \<times> store" where
  "and_then r f = (case r of (Inl e, st) \<Rightarrow> (Inl e, st) | (Inr a, st) \<Rightarrow> f a st)"

text \<open>\<open>clean_dataset\<close>: the copy, then the six stages in order, each on the table the
  previous one returned.\<close>

definition clean_dataset :: "libs \<Rightarrow> report option \<Rightarrow> nat \<Rightarrow> store \<Rightarrow> (error + nat) \<times> store" where
  "clean_dataset L analysis df st =
     and_then (and_then (and_then (and_then (and_then (and_then
       (as_new Inr df st)
       (in_place (\<lambda>t. handle_missing_data L t analysis)))
       (handle_outliers_st analysis))
       (as_new (\<lambda>t. Inr (remove_duplicates t))))
       (in_place (standardize_data_types L)))
       (in_place (handle_inconsistencies L)))
       (in_place (apply_transformations L))"

section \<open>Auxiliary notions and example inputs\<close>

text \<open>A four-row table of two text columns: one null, and the rows 0 and 2 equal.\<close>

definition labels_table :: table where
  "labels_table =
     \<lparr> index = [0, 1, 2, 3],
       columns = [(''a'', \<lparr> dtype = Object, cells = [Str ''p'', Null, Str ''p'', Str ''q''] \<rparr>),
                  (''b'', \<lparr> dtype = Object, cells = [Str ''x'', Str ''y'', Str ''x'', Str ''x''] \<rparr>)] \<rparr>"

text \<open>The table of the repository's own test: six rows, one null in each column.\<close>

definition people_table :: table where
  "people_table =
     \<lparr> index = [0, 1, 2, 3, 4, 5],
       columns = [(''age'', \<lparr> dtype = Float64,
                     cells = [Num 25, Num 30, Null, Num 45, Num 150, Num 35] \<rparr>),
                  (''income'', \<lparr> dtype = Float64,
                     cells = [Num 50000, Num 60000, Num 55000, Null, Num 70000, Num 65000] \<rparr>)] \<rparr>"

fun first_index :: "'a list \<Rightarrow> 'a \<Rightarrow> nat" where
  "first_index [] x = 0"
| "first_index (y # ys) x = (if x = y then 0 else Suc (first_index ys x))"

text \<open>Strings in the order of their character codes, and a list of strings sorted by
  it.\<close>

fun str_le :: "string \<Rightarrow> string \<Rightarrow> bool" where
  "str_le [] t = True"
| "str_le (c # cs) [] = False"
| "str_le (c # cs) (d # ds) =
     ((of_char c :: nat) < of_char d \<or> (c = d \<and> str_le cs ds))"

fun insert_str :: "string \<Rightarrow> string list \<Rightarrow> string list" where
  "insert_str x [] = [x]"
| "insert_str x (y # ys) = (if str_le x y then x # y # ys else y # insert_str x ys)"

definition sort_strs :: "string list \<Rightarrow> string list" where
  "sort_strs xs = foldr insert_str xs []"

text \<open>The text of a cell as the examples need it: a string is itself, an absent value
  reads \<open>nan\<close>; numbers, which reach no encoder in the examples, all read alike.\<close>

definition cell_str :: "cell \<Rightarrow> string" where
  "cell_str c = (case c of Str x \<Rightarrow> x | Null \<Rightarrow> ''nan'' | Num r \<Rightarrow> ''number'')"

text \<open>One concrete library, for evaluating the engine on the example tables: a string of
  decimal digits is a number, a column without strings converts to time stamps, the
  \<open>.str\<close> accessor accepts a column that holds a string or nothing at all, the
  model-based functions are unavailable, the string functions change nothing, labels are
  numbered in sorted order, and the analyses whose results are not kept do not raise.\<close>

definition basic_libs :: libs where
  "basic_libs =
     \<lparr> parses_num = (\<lambda>s. s \<noteq> [] \<and> list_all (\<lambda>c. c \<in> set ''0123456789'') s),
       to_datetime_ok = (\<lambda>s. list_all (\<lambda>c. case c of Str x \<Rightarrow> False | _ \<Rightarrow> True) (cells s)),
       empty_series_dtype = Object,
       most_frequent_impute = (\<lambda>cs. None),
       knn_impute = (\<lambda>k m. None),
       fillna_sentinel = (\<lambda>d cs. None),
       isolation_forest = (\<lambda>m. Inl ''unavailable''),
       local_outlier_factor = (\<lambda>m. Inl ''unavailable''),
       conv_datetime = (\<lambda>s. None),
       conv_numeric = (\<lambda>s. None),
       str_accessor_ok = (\<lambda>cs. list_ex (\<lambda>c. case c of Str x \<Rightarrow> True | _ \<Rightarrow> False) cs
                                \<or> list_all (\<lambda>c. c = Null) cs),
       str_strip = (\<lambda>s. s),
       collapse_ws = (\<lambda>s. s),
       replace_ci = (\<lambda>abbr full s. s),
       str_title = (\<lambda>s. s),
       str_capitalize = (\<lambda>s. s),
       str_lower = (\<lambda>s. s),
       standard_scale = (\<lambda>m. None),
       label_encode = (\<lambda>cs. map (\<lambda>c. Num (real (first_index
                                  (sort_strs (remdups (map cell_str cs))) (cell_str c)))) cs),
       basic_info_error = (\<lambda>df. None),
       distributions_error = (\<lambda>df. None),
       correlations_error = (\<lambda>df. None) \<rparr>"

text \<open>The row labels that one entry of the model-based results contributes.\<close>

definition ml_flagged :: "ml_entry \<Rightarrow> nat set" where
  "ml_flagged e = (case e of MLOutliers n indices \<Rightarrow> set indices | _ \<Rightarrow> {})"

text \<open>Detector results for one column and two model entries, one of them failed.\<close>

definition age_statistical :: "(string \<times> col_outliers) list" where
  "age_statistical =
     [(''age'', \<lparr> iqr_outliers = 1, zscore_outliers = 0, modified_zscore_outliers = 1,
                 iqr_bounds = (5, 65),
                 outlier_indices = [(''iqr'', [4]), (''zscore'', []), (''modified_zscore'', [4])] \<rparr>)]"

definition age_ml_based :: "(string \<times> ml_entry) list" where
  "age_ml_based =
     [(''isolation_forest'', MLOutliers 2 [4, 1]),
      (''local_outlier_factor'', MLError ''failed'')]"

text \<open>A one-column table whose values are mostly equal.\<close>

definition flat_table :: table where
  "flat_table =
     \<lparr> index = [0, 1, 2, 3],
       columns = [(''v'', \<lparr> dtype = Float64, cells = [Num 1, Num 1, Num 1, Num 5] \<rparr>)] \<rparr>"

text \<open>The decision order for the suggested type as the specification words it: numeric
  when at least 80% of the non-null values convert to a number, else datetime when the
  column parses as dates, else categorical when the distinct-value ratio is below 0.5,
  else text (which the engine names \<open>object\<close>).\<close>

definition spec_suggest_dtype :: "libs \<Rightarrow> series \<Rightarrow> string" where
  "spec_suggest_dtype L s =
     (let nonnull = filter (\<lambda>c. c \<noteq> Null) (cells s)
      in if 0.8 * real (length nonnull) \<le> real (length (filter (numeric_ok L) nonnull))
         then ''numeric''
         else if to_datetime_ok L s then ''datetime''
         else if real (nunique s) / real (length (cells s)) < 0.5 then ''categorical''
         else ''object'')"

text \<open>Columns for the four answers: five numerals and a word; a number after two
  nulls; three distinct words; time stamps with nulls.\<close>

definition digits_series :: series where
  "digits_series =
     \<lparr> dtype = Object,
       cells = [Str ''1'', Str ''2'', Str ''3'', Str ''4'', Str ''5'', Str ''x''] \<rparr>"

definition late_series :: series where
  "late_series = \<lparr> dtype = Float64, cells = [Null, Null, Num 1] \<rparr>"

definition words_series :: series where
  "words_series = \<lparr> dtype = Object, cells = [Str ''a'', Str ''b'', Str ''c''] \<rparr>"

definition stamp_series :: series where
  "stamp_series = \<lparr> dtype = Datetime64, cells = [Num 1, Null, Null] \<rparr>"

text \<open>A numeric column with one null among five values, and a text column with two
  distinct values among five.\<close>

definition gappy_series :: series where
  "gappy_series = \<lparr> dtype = Float64, cells = [Num 1, Num 2, Num 3, Num 4, Null] \<rparr>"

definition grade_series :: series where
  "grade_series = \<lparr> dtype = Object, cells = [Str ''a'', Str ''a'', Str ''a'', Str ''a'', Str ''b''] \<rparr>"

text \<open>Twenty-five readings, the first one missing (4% nulls).\<close>

definition readings_table :: table where
  "readings_table =
     \<lparr> index = [0, 1, 2, 3, 4, 5, 6, 7, 8, 9, 10, 11, 12, 13, 14, 15, 16, 17, 18, 19, 20, 21, 22,
                23, 24],
       columns = [(''temp'', \<lparr> dtype = Float64,
                     cells = [Null, Num 2, Num 2, Num 2, Num 2, Num 2, Num 2, Num 2, Num 2, Num 2,
                              Num 2, Num 2, Num 2, Num 2, Num 2, Num 2, Num 2, Num 2, Num 2, Num 2,
                              Num 2, Num 2, Num 2, Num 2, Num 5] \<rparr>)] \<rparr>"

text \<open>A column with one far value among four, alone in a table.\<close>

definition spike_series :: series where
  "spike_series = \<lparr> dtype = Float64, cells = [Num 0, Num 0, Num 0, Num 100] \<rparr>"

definition spike_table :: table where
  "spike_table = \<lparr> index = [0, 1, 2, 3], columns = [(''x'', spike_series)] \<rparr>"

text \<open>Two numeric columns, each with one far value, and a text column.\<close>

definition mixed_table :: table where
  "mixed_table =
     \<lparr> index = [0, 1, 2, 3, 4],
       columns = [(''x'', \<lparr> dtype = Float64, cells = [Num 0, Num 0, Num 0, Num 100, Null] \<rparr>),
                  (''t'', \<lparr> dtype = Object,
                      cells = [Str ''a'', Str ''b'', Str ''c'', Str ''d'', Null] \<rparr>),
                  (''y'', \<lparr> dtype = Float64,
                      cells = [Num (- 100), Num 0, Null, Num 0, Num 0] \<rparr>)] \<rparr>"

text \<open>A column with two nulls among three values, beside a complete column.\<close>

definition sparse_table :: table where
  "sparse_table =
     \<lparr> index = [0, 1, 2],
       columns = [(''a'', \<lparr> dtype = Float64, cells = [Null, Null, Num 1] \<rparr>),
                  (''b'', \<lparr> dtype = Float64, cells = [Num 1, Num 2, Num 3] \<rparr>)] \<rparr>"

text \<open>A value brought back to the nearer end of an interval; nulls and other cells are
  left alone.\<close>

definition capped :: "real \<Rightarrow> real \<Rightarrow> cell \<Rightarrow> cell" where
  "capped lo hi c =
     (case c of Num x \<Rightarrow> Num (if x < lo then lo else if hi < x then hi else x) | _ \<Rightarrow> c)"

text \<open>What a run that starts with \<open>N\<close> allocated references must keep: every table
  below \<open>N\<close> as it was, the allocation counter not below \<open>N\<close>, and a returned reference
  not below \<open>N\<close>.\<close>

definition keeps_below :: "nat \<Rightarrow> store \<Rightarrow> (error + nat) \<times> store \<Rightarrow> bool" where
  "keeps_below N st res \<longleftrightarrow>
     (\<forall>a < N. frames (snd res) a = frames st a) \<and> N \<le> next_ref (snd res) \<and>
     (\<forall>c. fst res = Inr c \<longrightarrow> N \<le> c)"

text \<open>The table \<open>labels_table\<close> after imputation, after the removal of its duplicate row,
  and after encoding.\<close>

definition labels_filled_table :: table where
  "labels_filled_table =
     \<lparr> index = [0, 1, 2, 3],
       columns = [(''a'', \<lparr> dtype = Object,
                     cells = [Str ''p'', Str ''Unknown'', Str ''p'', Str ''q''] \<rparr>),
                  (''b'', \<lparr> dtype = Object,
                     cells = [Str ''x'', Str ''y'', Str ''x'', Str ''x''] \<rparr>)] \<rparr>"

definition labels_unique_table :: table where
  "labels_unique_table =
     \<lparr> index = [0, 1, 3],
       columns = [(''a'', \<lparr> dtype = Object, cells = [Str ''p'', Str ''Unknown'', Str ''q''] \<rparr>),
                  (''b'', \<lparr> dtype = Object, cells = [Str ''x'', Str ''y'', Str ''x''] \<rparr>)] \<rparr>"

definition labels_encoded_table :: table where
  "labels_encoded_table =
     \<lparr> index = [0, 1, 3],
       columns = [(''a'', \<lparr> dtype = Float64, cells = [Num 1, Num 0, Num 2] \<rparr>),
                  (''b'', \<lparr> dtype = Float64, cells = [Num 0, Num 1, Num 0] \<rparr>)] \<rparr>"

text \<open>A store that holds one table, under reference 0.\<close>

definition labels_store :: store where
  "labels_store = \<lparr> frames = [0 \<mapsto> labels_table], next_ref = 1 \<rparr>"

section \<open>Verified properties\<close>

subsection \<open>Rounding to a double\<close>

lemma scale_up_reach:
  "0 < x \<Longrightarrow> x * 2 ^ k < 2 ^ 53 \<Longrightarrow> k \<le> n \<Longrightarrow> int k \<le> e + 1074
     \<Longrightarrow> 2 ^ 52 \<le> x * 2 ^ k \<or> int k = e + 1074
     \<Longrightarrow> scale_up n x e = (x * 2 ^ k, e - int k)"
proof (induction k arbitrary: n x e)
  case 0
  then show ?case by (cases n) auto
next
  case (Suc k)
  from Suc.prems(3) obtain m where n: "n = Suc m" and km: "k \<le> m"
    by (cases n) auto
  have "x * 2 ^ Suc k < 2 ^ 53" by (rule Suc.prems(2))
  moreover have "x * 2 \<le> x * 2 ^ Suc k" using Suc.prems(1) by simp
  ultimately have lt: "x < 2 ^ 52" by simp
  have e: "- 1074 < e" using Suc.prems(4) by simp
  have "scale_up m (2 * x) (e - 1) = (2 * x * 2 ^ k, e - 1 - int k)"
    using Suc.prems km by (intro Suc.IH) (auto simp: mult.assoc)
  then show ?case using lt e n by (simp add: mult.assoc)
qed

lemma round_half_even_near: "\<bar>of_int (round_half_even y) - y\<bar> \<le> 1 / 2"
  unfolding round_half_even_def Let_def by (auto; linarith)

lemma round_half_even_mono_int: "of_int m \<le> y \<Longrightarrow> m \<le> round_half_even y"
  unfolding round_half_even_def Let_def by (auto simp: le_floor_iff; linarith)

lemma round_half_even_le_int: "y \<le> of_int m \<Longrightarrow> round_half_even y \<le> m"
  unfolding round_half_even_def Let_def
  by (auto simp: floor_le_iff; linarith)

lemma round_half_even_int: "round_half_even (of_int m) = m"
  by (simp add: round_half_even_def)

lemma scale_down_stay: "x < 2 ^ 53 \<Longrightarrow> scale_down n x e = (x, e)"
  by (cases n) simp_all

lemma round_double_scaled_or_bottom:
  assumes "0 < x" and "x * 2 ^ k < 2 ^ 53" and "k \<le> 1074"
    and "2 ^ 52 \<le> x * 2 ^ k \<or> k = 1074"
  shows "round_double x = Fin (of_int (round_half_even (x * 2 ^ k)) / 2 ^ k)"
proof -
  let ?y = "x * 2 ^ k"
  let ?m = "round_half_even ?y"
  have sc: "(if \<bar>x\<bar> < 2 ^ 52 then scale_up 1074 \<bar>x\<bar> 0 else scale_down 972 \<bar>x\<bar> 0)
      = (?y, - int k)"
  proof (cases "x < 2 ^ 52")
    case True
    have "scale_up 1074 x 0 = (?y, 0 - int k)"
      using assms by (intro scale_up_reach) auto
    with True assms(1) show ?thesis by simp
  next
    case False
    have k: "k = 0"
    proof (rule ccontr)
      assume "k \<noteq> 0"
      then obtain j where "k = Suc j" by (cases k) auto
      then have "x * 2 \<le> x * 2 ^ k"
        using assms(1) by simp
      with assms(2) False show False by simp
    qed
    have "scale_down 972 x 0 = (x, 0)"
      using assms(2) k by (intro scale_down_stay) simp
    with False assms(1) k show ?thesis by simp
  qed
  have "?m \<le> 2 ^ 53"
    using assms(2) by (intro round_half_even_le_int) simp
  then have m: "of_int ?m \<le> (2 ^ 53 :: real)"
    by (metis of_int_le_iff of_int_numeral of_int_power)
  have "of_int ?m * 1 \<le> (2 ^ 53 :: real) * 2 ^ k"
    using m by (intro mult_mono) simp_all
  then have "of_int ?m / 2 ^ k \<le> (2 ^ 53 :: real)"
    by (simp add: divide_le_eq)
  also have "\<dots> < 2 ^ 1024" by simp
  finally have lt: "of_int ?m / 2 ^ k < (2 ^ 1024 :: real)" .
  have p: "pow2 (- int k) = 1 / 2 ^ k"
    by (simp add: pow2_def)
  have eq: "of_int ?m * pow2 (- int k) = of_int ?m / 2 ^ k"
    unfolding p by simp
  have r: "(2 ^ 1024 \<le> of_int ?m / (2 ^ k :: real)) = False"
    using lt by (simp only: not_le [symmetric] simp_thms)
  have x0: "(x = 0) = False" "(0 < x) = True"
    using assms(1) by simp_all
  show ?thesis
    unfolding round_double_def sc Let_def prod.case eq r x0
    by (simp only: if_False if_True)
qed

lemma round_double_scaled:
  assumes "0 < x" and "2 ^ 52 \<le> x * 2 ^ k" and "x * 2 ^ k < 2 ^ 53" and "k \<le> 1074"
  shows "round_double x = Fin (of_int (round_half_even (x * 2 ^ k)) / 2 ^ k)"
  using assms by (intro round_double_scaled_or_bottom) auto

lemma round_double_fix:
  assumes "0 < x" and "2 ^ 52 \<le> x * 2 ^ k" and "x * 2 ^ k < 2 ^ 53" and "k \<le> 1074"
    and "x * 2 ^ k = of_int z"
  shows "round_double x = Fin x"
proof -
  have "real_of_int (round_half_even (x * 2 ^ k)) = x * 2 ^ k"
    unfolding assms(5) round_half_even_int ..
  then have "real_of_int (round_half_even (x * 2 ^ k)) / 2 ^ k = x"
    by simp
  with round_double_scaled [OF assms(1-4)] show ?thesis
    by (simp only:)
qed

lemma round_double_minus:
  assumes "round_double x = Fin r"
  shows "round_double (- x) = Fin (- r)"
proof (cases "x = 0")
  case True
  with assms show ?thesis by (simp add: round_double_def)
next
  case False
  obtain y e where sc: "(if \<bar>x\<bar> < 2 ^ 52 then scale_up 1074 \<bar>x\<bar> 0 else scale_down 972 \<bar>x\<bar> 0)
      = (y, e)"
    by (cases "if \<bar>x\<bar> < 2 ^ 52 then scale_up 1074 \<bar>x\<bar> 0 else scale_down 972 \<bar>x\<bar> 0")
  let ?r = "of_int (round_half_even y) * pow2 e"
  have a: "round_double x
      = (if 2 ^ 1024 \<le> ?r then (if 0 < x then PInf else NInf) else Fin (if 0 < x then ?r else - ?r))"
    unfolding round_double_def Let_def sc prod.case using False by (simp only: if_False)
  have nx: "(- x = 0) = False" "\<bar>- x\<bar> = \<bar>x\<bar>" using False by simp_all
  have b: "round_double (- x)
      = (if 2 ^ 1024 \<le> ?r then (if 0 < - x then PInf else NInf)
         else Fin (if 0 < - x then ?r else - ?r))"
    unfolding round_double_def Let_def nx sc prod.case by (simp only: if_False)
  show ?thesis
  proof (cases "2 ^ 1024 \<le> ?r")
    case True
    with a assms show ?thesis by (simp only: if_True split: if_splits) simp_all
  next
    case no: False
    from a no assms have r: "r = (if 0 < x then ?r else - ?r)"
      by (simp only: if_False fl.inject)
    from b no have "round_double (- x) = Fin (if 0 < - x then ?r else - ?r)"
      by (simp only: if_False)
    with r False show ?thesis by (cases "0 < x") simp_all
  qed
qed

lemma round_double_zero: "round_double 0 = Fin 0"
  by (simp add: round_double_def)

lemma scaling_exponent:
  fixes x :: real
  assumes "0 < x" and "x < 2 ^ 53" and "2 ^ 52 \<le> x * 2 ^ n"
  shows "\<exists>k \<le> n. 2 ^ 52 \<le> x * 2 ^ k \<and> x * 2 ^ k < 2 ^ 53"
proof -
  define k where "k = (LEAST k. 2 ^ 52 \<le> x * 2 ^ k)"
  have a: "2 ^ 52 \<le> x * 2 ^ k"
    unfolding k_def using assms(3) by (rule LeastI)
  have b: "k \<le> n"
    unfolding k_def using assms(3) by (rule Least_le)
  have c: "x * 2 ^ k < 2 ^ 53"
  proof (cases k)
    case 0
    with assms(2) show ?thesis by simp
  next
    case (Suc j)
    have "\<not> 2 ^ 52 \<le> x * 2 ^ j"
      using not_less_Least [of j "\<lambda>k. 2 ^ 52 \<le> x * 2 ^ k"] Suc by (simp add: k_def)
    then show ?thesis using Suc by simp
  qed
  from a b c show ?thesis by blast
qed

lemma round_double_rel_error:
  assumes "0 < x" and "x < 2 ^ 53" and "2 ^ 52 \<le> x * 2 ^ 1074"
  shows "\<exists>r. round_double x = Fin r \<and> \<bar>r - x\<bar> \<le> x / 2 ^ 53"
proof -
  obtain k where k: "k \<le> 1074" "2 ^ 52 \<le> x * 2 ^ k" "x * 2 ^ k < 2 ^ 53"
    using scaling_exponent [OF assms] by blast
  let ?y = "x * 2 ^ k"
  let ?m = "of_int (round_half_even ?y) :: real"
  have r: "round_double x = Fin (?m / 2 ^ k)"
    using assms(1) k(2,3,1) by (rule round_double_scaled)
  have e: "?m / 2 ^ k - x = (?m - ?y) / 2 ^ k"
    by (simp add: field_simps)
  have "\<bar>?m / 2 ^ k - x\<bar> = \<bar>?m - ?y\<bar> / 2 ^ k"
    unfolding e abs_divide by simp
  also have "\<dots> \<le> (1 / 2) / 2 ^ k"
    using round_half_even_near [of ?y] by (intro divide_right_mono) simp_all
  also have "\<dots> \<le> (?y / 2 ^ 53) / 2 ^ k"
    using k(2) by (intro divide_right_mono) simp_all
  also have "\<dots> = x / 2 ^ 53" by simp
  finally show ?thesis using r by blast
qed

lemma percent_rel_error:
  assumes "0 < M" and "M \<le> N" and "N < 2 ^ 53"
  shows "\<exists>p. dscale (ddiv (real M) (real N)) 100 = Fin p
           \<and> \<bar>p - 100 * real M / real N\<bar> \<le> 100 * real M / real N / 2 ^ 51"
proof -
  let ?q = "real M / real N"
  have N: "0 < N" using assms(1,2) by simp
  have q0: "0 < ?q" using assms(1) N by simp
  have q1: "?q \<le> 1" using assms(2) N by simp
  have "real N < 2 ^ 53" using assms(3) by (metis of_nat_less_iff of_nat_numeral of_nat_power)
  then have "1 / 2 ^ 53 < 1 / real N" using N by (simp add: field_simps)
  also have "\<dots> \<le> ?q" using assms(1) N by (simp add: field_simps)
  finally have qlow: "1 / 2 ^ 53 < ?q" .
  have "(2 :: real) ^ 52 \<le> 1 / 2 ^ 53 * 2 ^ 1074" by simp
  also have "\<dots> \<le> ?q * 2 ^ 1074" using qlow by (intro mult_right_mono) simp_all
  finally have qs: "2 ^ 52 \<le> ?q * 2 ^ 1074" .
  have "?q < 2 ^ 53" using q1 by (rule le_less_trans) simp
  then obtain r1 where r1: "round_double ?q = Fin r1" "\<bar>r1 - ?q\<bar> \<le> ?q / 2 ^ 53"
    using round_double_rel_error [OF q0 _ qs] by blast
  have r1lo: "?q / 2 \<le> r1" using r1(2) q0 by (simp add: abs_le_iff field_simps)
  have r1hi: "r1 \<le> ?q + ?q / 2 ^ 53" using r1(2) by (simp add: abs_le_iff)
  have "0 < ?q / 2" using q0 by simp
  with r1lo have r1pos: "0 < r1" by linarith
  have x0: "0 < r1 * 100" using r1pos by simp
  have "r1 \<le> 2" using r1hi q1 q0 by (simp add: field_simps)
  then have x1: "r1 * 100 < 2 ^ 53" by simp
  have "(2 :: real) ^ 52 \<le> 1 / 2 ^ 53 / 2 * 100 * 2 ^ 1074" by simp
  also have "\<dots> \<le> r1 * 100 * 2 ^ 1074"
  proof -
    have "1 / 2 ^ 53 / 2 < ?q / 2" using qlow by (rule divide_strict_right_mono) simp
    with r1lo have "1 / 2 ^ 53 / 2 \<le> r1" by linarith
    then show ?thesis by (intro mult_right_mono) simp_all
  qed
  finally have xs: "2 ^ 52 \<le> r1 * 100 * 2 ^ 1074" .
  obtain p where p: "round_double (r1 * 100) = Fin p" "\<bar>p - r1 * 100\<bar> \<le> r1 * 100 / 2 ^ 53"
    using round_double_rel_error [OF x0 x1 xs] by blast
  have d: "dscale (ddiv (real M) (real N)) 100 = Fin p"
    using N r1(1) p(1) by (simp add: ddiv_def)
  have b: "r1 * 100 - 100 * ?q = 100 * (r1 - ?q)" by (simp add: algebra_simps)
  have "\<bar>p - 100 * ?q\<bar> \<le> \<bar>p - r1 * 100\<bar> + \<bar>r1 * 100 - 100 * ?q\<bar>"
    using abs_triangle_ineq [of "p - r1 * 100" "r1 * 100 - 100 * ?q"] by simp
  also have "\<dots> = \<bar>p - r1 * 100\<bar> + 100 * \<bar>r1 - ?q\<bar>"
    unfolding b abs_mult by simp
  also have "\<dots> \<le> r1 * 100 / 2 ^ 53 + 100 * (?q / 2 ^ 53)"
    using p(2) r1(2) by (intro add_mono mult_left_mono) simp_all
  also have "\<dots> \<le> (?q + ?q / 2 ^ 53) * 100 / 2 ^ 53 + 100 * (?q / 2 ^ 53)"
    using r1hi by (simp add: divide_right_mono)
  also have "\<dots> \<le> 100 * ?q / 2 ^ 51"
    using q0 by (simp add: field_simps)
  finally show ?thesis using d by (auto simp: mult.commute)
qed

lemma percent_zero: "N \<noteq> 0 \<Longrightarrow> dscale (ddiv 0 (real N)) 100 = Fin 0"
  by (simp add: ddiv_def round_double_zero)

lemma round_double_abs_error:
  assumes "\<bar>x\<bar> \<le> 1024"
  shows "\<exists>r. round_double x = Fin r \<and> \<bar>r - x\<bar> \<le> 1 / 2 ^ 43"
proof -
  have pos: "\<exists>r. round_double x = Fin r \<and> \<bar>r - x\<bar> \<le> 1 / 2 ^ 43"
    if x: "0 < x" "x \<le> 1024" for x :: real
  proof (cases "2 ^ 52 \<le> x * 2 ^ 1074")
    case True
    have "x < 2 ^ 53" using x(2) by (rule le_less_trans) simp
    then obtain r where r: "round_double x = Fin r" "\<bar>r - x\<bar> \<le> x / 2 ^ 53"
      using round_double_rel_error [OF x(1) _ True] by blast
    have "x / 2 ^ 53 \<le> 1024 / 2 ^ 53" using x(2) by (rule divide_right_mono) simp
    also have "\<dots> = (1 / 2 ^ 43 :: real)" by simp
    finally show ?thesis using r by (meson order_trans)
  next
    case False
    then have lt: "x * 2 ^ 1074 < 2 ^ 53" by simp
    let ?m = "of_int (round_half_even (x * 2 ^ 1074)) :: real"
    have r: "round_double x = Fin (?m / 2 ^ 1074)"
      using x(1) lt by (intro round_double_scaled_or_bottom) simp_all
    have e: "?m / 2 ^ 1074 - x = (?m - x * 2 ^ 1074) / 2 ^ 1074"
      by (simp add: field_simps)
    have "\<bar>?m / 2 ^ 1074 - x\<bar> = \<bar>?m - x * 2 ^ 1074\<bar> / 2 ^ 1074"
      unfolding e abs_divide by simp
    also have "\<dots> \<le> (1 / 2) / 2 ^ 1074"
      using round_half_even_near [of "x * 2 ^ 1074"] by (intro divide_right_mono) simp_all
    also have "\<dots> \<le> (1 / 2 ^ 43 :: real)" by simp
    finally show ?thesis using r by blast
  qed
  show ?thesis
  proof (cases "x = 0")
    case True
    then show ?thesis by (simp add: round_double_zero)
  next
    case False
    show ?thesis
    proof (cases "0 < x")
      case True
      with assms show ?thesis by (intro pos) simp_all
    next
      case neg: False
      with False assms have "0 < - x" "- x \<le> 1024" by simp_all
      then obtain r where r: "round_double (- x) = Fin r" "\<bar>r - (- x)\<bar> \<le> 1 / 2 ^ 43"
        using pos by blast
      have "round_double x = Fin (- r)"
        using round_double_minus [OF r(1)] by simp
      moreover have "- r - x = - (r - (- x))" by simp
      then have "\<bar>- r - x\<bar> = \<bar>r - (- x)\<bar>" by (simp only: abs_minus_cancel)
      then have "\<bar>- r - x\<bar> \<le> 1 / 2 ^ 43" using r(2) by (simp only:)
      ultimately show ?thesis by blast
    qed
  qed
qed

lemma clamp_close: "\<bar>max 0 (min 100 a) - max 0 (min 100 b)\<bar> \<le> \<bar>a - (b :: real)\<bar>"
  by (auto simp: max_def min_def abs_le_iff)

subsection \<open>Quality score\<close>

lemma fl_clamp_range: "\<exists>r. py_max (Fin 0) (py_min (Fin 100) s) = Fin r \<and> 0 \<le> r \<and> r \<le> 100"
  by (cases s) (auto simp: py_max_def py_min_def)

lemma score_range: "\<exists>r. calculate_quality_score ar = Fin r \<and> 0 \<le> r \<and> r \<le> 100"
  unfolding calculate_quality_score_def Let_def by (rule fl_clamp_range)

lemma fl_clamp_fin: "py_max (Fin 0) (py_min (Fin 100) (Fin x)) = Fin (max 0 (min 100 x))"
  by (auto simp: py_max_def py_min_def)

lemma score_with_report:
  assumes "outliers ar = OutlierReport st ml comb" and "0 < fst (shape ar)"
  shows "calculate_quality_score ar
     = py_max (Fin 0) (py_min (Fin 100)
         (dsub (dsub (dsub (Fin 100) (dscale (missing_percentage (missing_data ar)) 2.0))
                     (dscale (exact_duplicate_pct (duplicates ar)) 1.5))
               (dscale (dscale (ddiv (real (total_outliers comb)) (real (fst (shape ar)))) 100)
                  0.5)))"
  using assms by (simp add: calculate_quality_score_def Let_def combined_total_def)

lemma score_with_message:
  assumes "outliers ar = OutlierMessage msg"
  shows "calculate_quality_score ar
     = py_max (Fin 0) (py_min (Fin 100)
         (dsub (dsub (dsub (Fin 100) (dscale (missing_percentage (missing_data ar)) 2.0))
                     (dscale (exact_duplicate_pct (duplicates ar)) 1.5))
               (Fin 0)))"
proof (cases "0 < fst (shape ar)")
  case True
  then have "dscale (ddiv 0 (real (fst (shape ar)))) 100 = Fin 0"
    by (intro percent_zero) simp
  with assms True show ?thesis
    by (simp add: calculate_quality_score_def Let_def combined_total_def round_double_zero)
next
  case False
  with assms show ?thesis
    by (simp add: calculate_quality_score_def Let_def combined_total_def round_double_zero)
qed

lemma penalties_close:
  assumes "0 \<le> m" "m \<le> 100" "0 \<le> d" "d \<le> 100" "0 \<le> p" "p \<le> 100"
  shows "\<exists>s. dsub (dsub (dsub (Fin 100) (dscale (Fin m) 2.0)) (dscale (Fin d) 1.5))
                (dscale (Fin p) 0.5) = Fin s
             \<and> \<bar>s - (100 - 2.0 * m - 1.5 * d - 0.5 * p)\<bar> \<le> 1 / 2 ^ 40"
proof -
  define e where "e = (1 / 2 ^ 43 :: real)"
  have e: "0 \<le> e" "e \<le> 1" "6 * e \<le> 1 / 2 ^ 40"
    by (simp_all add: e_def)
  have rd: "\<exists>r. round_double x = Fin r \<and> \<bar>r - x\<bar> \<le> e" if "\<bar>x\<bar> \<le> 1024" for x
    unfolding e_def using that by (rule round_double_abs_error)
  obtain a1 where a1: "round_double (m * 2.0) = Fin a1" "\<bar>a1 - m * 2.0\<bar> \<le> e"
    using rd [of "m * 2.0"] assms(1,2) by auto
  obtain a2 where a2: "round_double (d * 1.5) = Fin a2" "\<bar>a2 - d * 1.5\<bar> \<le> e"
    using rd [of "d * 1.5"] assms(3,4) by auto
  obtain a3 where a3: "round_double (p * 0.5) = Fin a3" "\<bar>a3 - p * 0.5\<bar> \<le> e"
    using rd [of "p * 0.5"] assms(5,6) by auto
  have "\<bar>100 - a1\<bar> \<le> 1024"
    using a1(2) assms(1,2) e(1,2) by (simp add: abs_le_iff)
  then obtain s1 where s1: "round_double (100 - a1) = Fin s1" "\<bar>s1 - (100 - a1)\<bar> \<le> e"
    using rd [of "100 - a1"] by auto
  have "\<bar>s1 - a2\<bar> \<le> 1024"
    using s1(2) a1(2) a2(2) assms(1-4) e(1,2) by (simp add: abs_le_iff)
  then obtain s2 where s2: "round_double (s1 - a2) = Fin s2" "\<bar>s2 - (s1 - a2)\<bar> \<le> e"
    using rd [of "s1 - a2"] by auto
  have "\<bar>s2 - a3\<bar> \<le> 1024"
    using s2(2) s1(2) a1(2) a2(2) a3(2) assms e(1,2) by (simp add: abs_le_iff)
  then obtain s3 where s3: "round_double (s2 - a3) = Fin s3" "\<bar>s3 - (s2 - a3)\<bar> \<le> e"
    using rd [of "s2 - a3"] by auto
  have v: "dsub (dsub (dsub (Fin 100) (dscale (Fin m) 2.0)) (dscale (Fin d) 1.5))
             (dscale (Fin p) 0.5) = Fin s3"
    by (simp only: dscale.simps dsub.simps a1(1) a2(1) a3(1) s1(1) s2(1) s3(1))
  have "\<bar>s3 - (100 - 2.0 * m - 1.5 * d - 0.5 * p)\<bar> \<le> 6 * e"
    using s3(2) s2(2) s1(2) a1(2) a2(2) a3(2) by (simp add: abs_le_iff)
  with e(3) have "\<bar>s3 - (100 - 2.0 * m - 1.5 * d - 0.5 * p)\<bar> \<le> 1 / 2 ^ 40"
    by (rule order_trans [rotated])
  with v show ?thesis by blast
qed

lemma score_close:
  assumes "calculate_quality_score ar
     = py_max (Fin 0) (py_min (Fin 100)
         (dsub (dsub (dsub (Fin 100) (dscale (Fin m) 2.0)) (dscale (Fin d) 1.5))
               (dscale (Fin p) 0.5)))"
    and "0 \<le> m" "m \<le> 100" "0 \<le> d" "d \<le> 100" "0 \<le> p" "p \<le> 100"
  shows "\<exists>r. calculate_quality_score ar = Fin r
             \<and> \<bar>r - max 0 (min 100 (100 - 2.0 * m - 1.5 * d - 0.5 * p))\<bar> \<le> 1 / 2 ^ 40"
proof -
  obtain s where s: "dsub (dsub (dsub (Fin 100) (dscale (Fin m) 2.0)) (dscale (Fin d) 1.5))
                (dscale (Fin p) 0.5) = Fin s"
      "\<bar>s - (100 - 2.0 * m - 1.5 * d - 0.5 * p)\<bar> \<le> 1 / 2 ^ 40"
    using penalties_close [OF assms(2-7)] by blast
  have "calculate_quality_score ar = Fin (max 0 (min 100 s))"
    unfolding assms(1) s(1) by (rule fl_clamp_fin)
  moreover have "\<bar>max 0 (min 100 s) - max 0 (min 100 (100 - 2.0 * m - 1.5 * d - 0.5 * p))\<bar>
      \<le> 1 / 2 ^ 40"
    using clamp_close [of s "100 - 2.0 * m - 1.5 * d - 0.5 * p"] s(2) by (rule order_trans)
  ultimately show ?thesis by blast
qed

lemma score_close_report:
  assumes "missing_percentage (missing_data ar) = Fin m"
    and "exact_duplicate_pct (duplicates ar) = Fin d"
    and "outliers ar = OutlierReport st ml comb"
    and "0 < fst (shape ar)"
    and "dscale (ddiv (real (total_outliers comb)) (real (fst (shape ar)))) 100 = Fin p"
    and "0 \<le> m" "m \<le> 100" "0 \<le> d" "d \<le> 100" "0 \<le> p" "p \<le> 100"
  shows "\<exists>r. calculate_quality_score ar = Fin r
             \<and> \<bar>r - max 0 (min 100 (100 - 2.0 * m - 1.5 * d - 0.5 * p))\<bar> \<le> 1 / 2 ^ 40"
  using score_with_report [OF assms(3,4)] assms(6-11) unfolding assms(1,2,5)
  by (rule score_close)

lemma score_close_message:
  assumes "missing_percentage (missing_data ar) = Fin m"
    and "exact_duplicate_pct (duplicates ar) = Fin d"
    and "outliers ar = OutlierMessage msg"
    and "0 \<le> m" "m \<le> 100" "0 \<le> d" "d \<le> 100"
  shows "\<exists>r. calculate_quality_score ar = Fin r
             \<and> \<bar>r - max 0 (min 100 (100 - 2.0 * m - 1.5 * d))\<bar> \<le> 1 / 2 ^ 40"
proof -
  have z: "Fin 0 = dscale (Fin 0) 0.5"
    by (simp add: round_double_zero)
  have "calculate_quality_score ar
     = py_max (Fin 0) (py_min (Fin 100)
         (dsub (dsub (dsub (Fin 100) (dscale (Fin m) 2.0)) (dscale (Fin d) 1.5))
               (dscale (Fin 0) 0.5)))"
    using score_with_message [OF assms(3)] unfolding assms(1,2) by (subst z [symmetric])
  then have "\<exists>r. calculate_quality_score ar = Fin r
             \<and> \<bar>r - max 0 (min 100 (100 - 2.0 * m - 1.5 * d - 0.5 * 0))\<bar> \<le> 1 / 2 ^ 40"
    using assms(4-7) by (rule score_close) simp_all
  then show ?thesis by simp
qed

lemma score_ignores_later_fields:
  "calculate_quality_score (ar\<lparr> quality_score := q, recommendations := rs \<rparr>)
     = calculate_quality_score ar"
  by (simp add: calculate_quality_score_def)

lemma analyze_dataset_sections:
  assumes "analyze_dataset L df = Inr ar"
  shows "quality_score ar = calculate_quality_score ar"
    and "missing_data ar = analyze_missing_data df"
    and "duplicates ar = analyze_duplicates df"
    and "outliers ar = analyze_outliers L df"
    and "shape ar = (len_df df, length (columns df))"
  using assms
  by (auto simp: analyze_dataset_def Let_def calculate_quality_score_def
      split: option.splits sum.splits)

text \<open>
  C1. The quality score is always a finite number between 0 and 100, whatever the
  missing, duplicate and outlier figures are (also when one of them is not-a-number).
  With an outlier section and at least one row, the score is 100.0 minus 2.0 times the
  missing percentage, minus 1.5 times the duplicate percentage, minus 0.5 times the
  percentage of the combined outlier count in the row count, each operation rounded to
  a double as the code performs it, and the result clamped to the interval from 0 to 100;
  when the three percentages are numbers \<open>m\<close>, \<open>d\<close> and \<open>p\<close> between 0 and 100, this is
  within \<open>2\<^sup>-\<^sup>4\<^sup>0\<close> of the real number \<open>100 - 2.0 m - 1.5 d - 0.5 p\<close> clamped to that
  interval. Without an outlier section the last term is zero. For every table whose analysis
  returns, the score in the report is this function of the figures that the analyzers
  computed on the table.
\<close>

theorem quality_score_clamped:
  "(\<exists>r. calculate_quality_score ar = Fin r \<and> 0 \<le> r \<and> r \<le> 100)
   \<and> (\<forall>st ml comb.
         outliers ar = OutlierReport st ml comb \<longrightarrow>
         0 < fst (shape ar) \<longrightarrow>
         calculate_quality_score ar
           = py_max (Fin 0) (py_min (Fin 100)
               (dsub (dsub (dsub (Fin 100) (dscale (missing_percentage (missing_data ar)) 2.0))
                           (dscale (exact_duplicate_pct (duplicates ar)) 1.5))
                     (dscale (dscale (ddiv (real (total_outliers comb))
                                (real (fst (shape ar)))) 100) 0.5))))
   \<and> (\<forall>m d st ml comb p.
         missing_percentage (missing_data ar) = Fin m \<longrightarrow>
         exact_duplicate_pct (duplicates ar) = Fin d \<longrightarrow>
         outliers ar = OutlierReport st ml comb \<longrightarrow>
         0 < fst (shape ar) \<longrightarrow>
         dscale (ddiv (real (total_outliers comb)) (real (fst (shape ar)))) 100 = Fin p \<longrightarrow>
         0 \<le> m \<longrightarrow> m \<le> 100 \<longrightarrow> 0 \<le> d \<longrightarrow> d \<le> 100 \<longrightarrow> 0 \<le> p \<longrightarrow> p \<le> 100 \<longrightarrow>
         (\<exists>r. calculate_quality_score ar = Fin r
            \<and> \<bar>r - max 0 (min 100 (100 - 2.0 * m - 1.5 * d - 0.5 * p))\<bar> \<le> 1 / 2 ^ 40))
   \<and> (\<forall>msg.
         outliers ar = OutlierMessage msg \<longrightarrow>
         calculate_quality_score ar
           = py_max (Fin 0) (py_min (Fin 100)
               (dsub (dsub (dsub (Fin 100) (dscale (missing_percentage (missing_data ar)) 2.0))
                           (dscale (exact_duplicate_pct (duplicates ar)) 1.5))
                     (Fin 0))))
   \<and> (\<forall>m d msg.
         missing_percentage (missing_data ar) = Fin m \<longrightarrow>
         exact_duplicate_pct (duplicates ar) = Fin d \<longrightarrow>
         outliers ar = OutlierMessage msg \<longrightarrow>
         0 \<le> m \<longrightarrow> m \<le> 100 \<longrightarrow> 0 \<le> d \<longrightarrow> d \<le> 100 \<longrightarrow>
         (\<exists>r. calculate_quality_score ar = Fin r
            \<and> \<bar>r - max 0 (min 100 (100 - 2.0 * m - 1.5 * d))\<bar> \<le> 1 / 2 ^ 40))
   \<and> (\<forall>rep. analyze_dataset L df = Inr rep \<longrightarrow>
         (\<exists>r. quality_score rep = Fin r \<and> 0 \<le> r \<and> r \<le> 100)
         \<and> quality_score rep = calculate_quality_score rep
         \<and> missing_data rep = analyze_missing_data df
         \<and> duplicates rep = analyze_duplicates df
         \<and> outliers rep = analyze_outliers L df
         \<and> fst (shape rep) = len_df df)"
proof (intro conjI allI impI)
  show "\<exists>r. calculate_quality_score ar = Fin r \<and> 0 \<le> r \<and> r \<le> 100"
    by (rule score_range)
next
  fix st ml comb
  assume "outliers ar = OutlierReport st ml comb" and "0 < fst (shape ar)"
  then show "calculate_quality_score ar
           = py_max (Fin 0) (py_min (Fin 100)
               (dsub (dsub (dsub (Fin 100) (dscale (missing_percentage (missing_data ar)) 2.0))
                           (dscale (exact_duplicate_pct (duplicates ar)) 1.5))
                     (dscale (dscale (ddiv (real (total_outliers comb))
                                (real (fst (shape ar)))) 100) 0.5)))"
    by (rule score_with_report)
next
  fix m d st ml comb p
  assume "missing_percentage (missing_data ar) = Fin m"
    and "exact_duplicate_pct (duplicates ar) = Fin d"
    and "outliers ar = OutlierReport st ml comb"
    and "0 < fst (shape ar)"
    and "dscale (ddiv (real (total_outliers comb)) (real (fst (shape ar)))) 100 = Fin p"
    and "0 \<le> m" "m \<le> 100" "0 \<le> d" "d \<le> 100" "0 \<le> p" "p \<le> 100"
  then show "\<exists>r. calculate_quality_score ar = Fin r
            \<and> \<bar>r - max 0 (min 100 (100 - 2.0 * m - 1.5 * d - 0.5 * p))\<bar> \<le> 1 / 2 ^ 40"
    by (rule score_close_report)
next
  fix msg
  assume "outliers ar = OutlierMessage msg"
  then show "calculate_quality_score ar
           = py_max (Fin 0) (py_min (Fin 100)
               (dsub (dsub (dsub (Fin 100) (dscale (missing_percentage (missing_data ar)) 2.0))
                           (dscale (exact_duplicate_pct (duplicates ar)) 1.5))
                     (Fin 0)))"
    by (rule score_with_message)
next
  fix m d msg
  assume "missing_percentage (missing_data ar) = Fin m"
    and "exact_duplicate_pct (duplicates ar) = Fin d"
    and "outliers ar = OutlierMessage msg"
    and "0 \<le> m" "m \<le> 100" "0 \<le> d" "d \<le> 100"
  then show "\<exists>r. calculate_quality_score ar = Fin r
            \<and> \<bar>r - max 0 (min 100 (100 - 2.0 * m - 1.5 * d))\<bar> \<le> 1 / 2 ^ 40"
    by (rule score_close_message)
next
  fix rep
  assume a: "analyze_dataset L df = Inr rep"
  show "\<exists>r. quality_score rep = Fin r \<and> 0 \<le> r \<and> r \<le> 100"
    unfolding analyze_dataset_sections(1) [OF a] by (rule score_range)
  show "quality_score rep = calculate_quality_score rep"
    by (rule analyze_dataset_sections(1) [OF a])
  show "missing_data rep = analyze_missing_data df"
    by (rule analyze_dataset_sections(2) [OF a])
  show "duplicates rep = analyze_duplicates df"
    by (rule analyze_dataset_sections(3) [OF a])
  show "outliers rep = analyze_outliers L df"
    by (rule analyze_dataset_sections(4) [OF a])
  show "fst (shape rep) = len_df df"
    by (simp add: analyze_dataset_sections(5) [OF a])
qed

lemma round_hundred: "round_double 100 = Fin 100"
  using round_double_fix [of 100 46 "100 * 2 ^ 46"] by simp

lemma round_seventy_five: "round_double 75 = Fin 75"
  using round_double_fix [of 75 46 "75 * 2 ^ 46"] by simp

lemma round_twenty_five: "round_double 25 = Fin 25"
  using round_double_fix [of 25 48 "25 * 2 ^ 48"] by simp

lemma round_twelve_and_half: "round_double (25 / 2) = Fin (25 / 2)"
  using round_double_fix [of "25 / 2" 49 "25 * 2 ^ 48"] by simp

lemma spike_score:
  "py_max (Fin 0) (py_min (Fin 100)
     (dsub (dsub (dsub (Fin 100) (dscale (Fin 0) 2.0)) (dscale (Fin 50) 1.5))
           (dscale (Fin 25) 0.5))) = Fin 12.5"
  by (simp add: round_double_zero round_hundred round_seventy_five round_twenty_five
      round_twelve_and_half py_max_def py_min_def)

lemma percent_quarter: "dscale (ddiv 1 4) 100 = Fin 25"
  using round_double_scaled [of "1 / 4" 54] round_double_scaled [of 25 48]
  by (simp add: ddiv_def round_half_even_def)

lemma percent_half: "dscale (ddiv 2 4) 100 = Fin 50"
  using round_double_scaled [of "1 / 2" 53] round_double_scaled [of 50 47]
  by (simp add: ddiv_def round_half_even_def)

lemma zscore_test:
  assumes "0 < v"
  shows "fl_less (Fin 3) (fl_abs (fdiv d (sqrt v))) \<longleftrightarrow> 9 * v < d\<^sup>2"
proof -
  have s: "0 < sqrt v" using assms by simp
  have "3 < \<bar>d\<bar> / sqrt v \<longleftrightarrow> sqrt (9 * v) < sqrt (d\<^sup>2)"
    using s by (simp add: real_sqrt_mult field_simps)
  also have "\<dots> \<longleftrightarrow> 9 * v < d\<^sup>2" by (rule real_sqrt_less_iff)
  finally show ?thesis using s by (simp add: fdiv_def)
qed

lemma spike_missing: "missing_percentage (analyze_missing_data spike_table) = Fin 0"
  using percent_zero [of 4]
  by (simp add: analyze_missing_data_def Let_def spike_table_def spike_series_def isnull_sum_def
      df_size_def)

lemma spike_duplicates: "exact_duplicate_pct (analyze_duplicates spike_table) = Fin 50"
  by (simp add: analyze_duplicates_def Let_def spike_table_def spike_series_def rows_of_def
      len_df_def upt_rec percent_half)

lemma spike_col_data:
  "dropna (index spike_table) (cells spike_series) = [(0, 0), (Suc 0, 0), (2, 0), (3, 100)]"
  by (simp add: dropna_def spike_table_def spike_series_def)

lemma spike_iqr: "iqr_flagged [(0, 0), (Suc 0, 0), (2, 0), (3, 100)] = [3]"
  by (simp add: iqr_flagged_def iqr_fences_def quantile_def Let_def)

lemma spike_zscore: "zscore_flagged [(0, 0), (Suc 0, 0), (2, 0), (3, 100)] = []"
  by (simp add: zscore_flagged_def mean_def Let_def zscore_test)

lemma spike_modified: "modified_zscore_flagged [(0, 0), (Suc 0, 0), (2, 0), (3, 100)] = [3]"
  by (simp add: modified_zscore_flagged_def mad_def median_def Let_def fdiv_def)

lemma spike_outliers:
  "\<exists>st ml. analyze_outliers L spike_table
      = OutlierReport st ml
          \<lparr> total_outliers = 1, high_confidence_outliers = [], all_outlier_indices = {3} \<rparr>"
proof -
  have n: "numeric_cols spike_table = [(''x'', spike_series)]"
    by (simp add: numeric_cols_def spike_table_def spike_series_def)
  have ml: "ml_outlier_detection L spike_table [(''x'', spike_series)]
      = [(''message'', MLText ''Insufficient data for ML outlier detection'')]"
    by (simp add: ml_outlier_detection_def Let_def len_df_def spike_table_def)
  have "combine_outlier_results
          (statistical_outlier_detection spike_table [(''x'', spike_series)])
          [(''message'', MLText ''Insufficient data for ML outlier detection'')]
      = \<lparr> total_outliers = 1, high_confidence_outliers = [], all_outlier_indices = {3} \<rparr>"
    by (simp add: combine_outlier_results_def Let_def statistical_outlier_detection_def
        spike_col_data spike_iqr spike_zscore spike_modified)
  then show ?thesis
    by (simp add: analyze_outliers_def Let_def n ml)
qed

lemma spike_analysis_returns: "\<exists>rep. analyze_dataset basic_libs spike_table = Inr rep"
  by (simp add: analyze_dataset_def Let_def basic_libs_def spike_table_def spike_series_def
      suggest_dtype_def numeric_count_def numeric_ok_def fdiv_def)

theorem quality_score_clamped_witness:
  "\<exists>rep st ml comb.
      analyze_dataset basic_libs spike_table = Inr rep
      \<and> missing_percentage (missing_data rep) = Fin 0
      \<and> exact_duplicate_pct (duplicates rep) = Fin 50
      \<and> outliers rep = OutlierReport st ml comb
      \<and> total_outliers comb = 1
      \<and> fst (shape rep) = 4
      \<and> dscale (ddiv (real (total_outliers comb)) (real (fst (shape rep)))) 100 = Fin 25
      \<and> calculate_quality_score rep = Fin 12.5
      \<and> \<bar>12.5 - max 0 (min 100 (100 - 2.0 * 0 - 1.5 * 50 - 0.5 * 25))\<bar> \<le> (1 / 2 ^ 40 :: real)
      \<and> quality_score rep = Fin 12.5"
proof -
  obtain rep where a: "analyze_dataset basic_libs spike_table = Inr rep"
    using spike_analysis_returns by blast
  note q = quality_score_clamped [of rep basic_libs spike_table]
  from q a have s: "quality_score rep = calculate_quality_score rep"
    "missing_data rep = analyze_missing_data spike_table"
    "duplicates rep = analyze_duplicates spike_table"
    "outliers rep = analyze_outliers basic_libs spike_table"
    "fst (shape rep) = len_df spike_table"
    by blast+
  obtain st ml where o: "outliers rep = OutlierReport st ml
      \<lparr> total_outliers = 1, high_confidence_outliers = [], all_outlier_indices = {3} \<rparr>"
    using spike_outliers [of basic_libs] s(4) by auto
  let ?comb = "\<lparr> total_outliers = 1, high_confidence_outliers = [], all_outlier_indices = {3::nat} \<rparr>"
  have m: "missing_percentage (missing_data rep) = Fin 0"
    by (simp add: s(2) spike_missing)
  have d: "exact_duplicate_pct (duplicates rep) = Fin 50"
    by (simp add: s(3) spike_duplicates)
  have r: "fst (shape rep) = 4" "0 < fst (shape rep)"
    by (simp_all add: s(5) len_df_def spike_table_def)
  have p: "dscale (ddiv (real (total_outliers ?comb)) (real (fst (shape rep)))) 100 = Fin 25"
    by (simp add: r(1) percent_quarter)
  have "calculate_quality_score rep
      = py_max (Fin 0) (py_min (Fin 100)
               (dsub (dsub (dsub (Fin 100) (dscale (missing_percentage (missing_data rep)) 2.0))
                           (dscale (exact_duplicate_pct (duplicates rep)) 1.5))
                     (dscale (dscale (ddiv (real (total_outliers ?comb))
                                (real (fst (shape rep)))) 100) 0.5)))"
    using q o r(2) by blast
  then have c: "calculate_quality_score rep = Fin 12.5"
    unfolding m d p by (simp only: spike_score)
  have b: "\<bar>12.5 - max 0 (min 100 (100 - 2.0 * 0 - 1.5 * 50 - 0.5 * 25))\<bar> \<le> (1 / 2 ^ 40 :: real)"
    by simp
  from a m d o r(1) p c b s(1) show ?thesis
    by (intro exI [of _ rep] exI [of _ st] exI [of _ ml] exI [of _ ?comb]) simp
qed

subsection \<open>Missing percentage\<close>

lemma count_concat:
  "length (filter P (concat xss)) = sum_list (map (\<lambda>xs. length (filter P xs)) xss)"
  by (induction xss) simp_all

lemma sum_list_const_on:
  "(\<forall>x \<in> set xs. f x = (k::nat)) \<Longrightarrow> sum_list (map f xs) = k * length xs"
  by (induction xs) simp_all

lemma length_all_cells:
  assumes "wf_table df"
  shows "length (all_cells df) = len_df df * length (columns df)"
proof -
  from assms have "\<forall>c \<in> set (columns df). length (cells (snd c)) = len_df df"
    by (simp add: wf_table_def list_all_iff len_df_def)
  then have "sum_list (map (\<lambda>c. length (cells (snd c))) (columns df))
      = len_df df * length (columns df)"
    by (rule sum_list_const_on)
  then show ?thesis by (simp add: all_cells_def length_concat comp_def)
qed

lemma total_missing_count:
  "total_missing (analyze_missing_data df) = length (filter (\<lambda>c. c = Null) (all_cells df))"
  by (simp add: analyze_missing_data_def Let_def all_cells_def count_concat isnull_sum_def
      comp_def)

lemma missing_percentage_value:
  "missing_percentage (analyze_missing_data df)
     = dscale (ddiv (real (total_missing (analyze_missing_data df)))
                    (real (len_df df * length (columns df)))) 100"
  by (simp add: analyze_missing_data_def Let_def df_size_def len_df_def)

text \<open>
  C9, as amended. A well-formed table with \<open>R > 0\<close> rows and \<open>C > 0\<close> columns has \<open>R * C\<close>
  cells; when \<open>M\<close> of them are null, the overall missing percentage reported by the
  Missing-Data Analyzer is the double-precision value of \<open>(M / (R * C)) * 100\<close>, rounded
  after the division and again after the multiplication. For \<open>R * C < 2^53\<close> it is a
  finite number that differs from \<open>100 * M / (R * C)\<close> by at most
  \<open>100 * M / (R * C) / 2^51\<close>; it need not be equal to it.
\<close>

theorem missing_percentage_rounded:
  assumes "wf_table df"
    and "len_df df = R" and "length (columns df) = C"
    and "0 < R" and "0 < C"
    and "M = length (filter (\<lambda>c. c = Null) (all_cells df))"
    and "R * C < 2 ^ 53"
  shows "length (all_cells df) = R * C
       \<and> missing_percentage (analyze_missing_data df)
           = dscale (ddiv (real M) (real (R * C))) 100
       \<and> (\<exists>p. missing_percentage (analyze_missing_data df) = Fin p
              \<and> \<bar>p - 100 * real M / (real R * real C)\<bar>
                  \<le> 100 * real M / (real R * real C) / 2 ^ 51)"
proof -
  have n: "length (all_cells df) = R * C"
    using length_all_cells [OF assms(1)] assms(2,3) by simp
  have v: "missing_percentage (analyze_missing_data df)
      = dscale (ddiv (real M) (real (R * C))) 100"
    unfolding missing_percentage_value total_missing_count assms(2,3) assms(6) ..
  have le: "M \<le> R * C"
    unfolding assms(6) n [symmetric] by (rule length_filter_le)
  have "\<exists>p. dscale (ddiv (real M) (real (R * C))) 100 = Fin p
           \<and> \<bar>p - 100 * real M / real (R * C)\<bar> \<le> 100 * real M / real (R * C) / 2 ^ 51"
  proof (cases "M = 0")
    case True
    have "R * C \<noteq> 0" using assms(4,5) by simp
    then have "dscale (ddiv 0 (real (R * C))) 100 = Fin 0" by (rule percent_zero)
    with True show ?thesis by simp
  next
    case False
    then have "0 < M" by simp
    then show ?thesis using le assms(7) by (rule percent_rel_error)
  qed
  then have e: "\<exists>p. missing_percentage (analyze_missing_data df) = Fin p
              \<and> \<bar>p - 100 * real M / (real R * real C)\<bar>
                  \<le> 100 * real M / (real R * real C) / 2 ^ 51"
    unfolding v by simp
  from n v e show ?thesis by blast
qed

lemma round_sixth: "round_double (1 / 6) = Fin (6004799503160661 / 2 ^ 55)"
  using round_double_scaled [of "1 / 6" 55] by (simp add: round_half_even_def)

lemma percent_sixth: "dscale (ddiv 2 12) 100 = Fin (2345624805922133 / 2 ^ 47)"
  using round_double_scaled [of "6004799503160661 / 2 ^ 55 * 100" 48]
  by (simp add: ddiv_def round_sixth round_half_even_def)

lemma round_fifty_thirds: "round_double (100 * 2 / 12) = Fin (4691249611844267 / 2 ^ 48)"
  using round_double_scaled [of "50 / 3" 48] by (simp add: round_half_even_def)

lemma people_counts:
  "wf_table people_table" "len_df people_table = 6" "length (columns people_table) = 2"
  "length (filter (\<lambda>c. c = Null) (all_cells people_table)) = 2"
  by (simp_all add: wf_table_def len_df_def all_cells_def people_table_def)

theorem missing_percentage_rounded_witness:
  "wf_table people_table \<and> len_df people_table = 6 \<and> length (columns people_table) = 2
   \<and> length (filter (\<lambda>c. c = Null) (all_cells people_table)) = 2
   \<and> (6 :: nat) * 2 < 2 ^ 53
   \<and> missing_percentage (analyze_missing_data people_table) = Fin (2345624805922133 / 2 ^ 47)
   \<and> \<bar>2345624805922133 / 2 ^ 47 - 100 * 2 / (6 * 2)\<bar> \<le> (100 * 2 / (6 * 2) / 2 ^ 51 :: real)"
proof -
  have b: "(6 :: nat) * 2 < 2 ^ 53" by simp
  have p: "0 < (6 :: nat)" "0 < (2 :: nat)" by simp_all
  note th = missing_percentage_rounded [OF people_counts(1,2,3) p people_counts(4) [symmetric] b]
  from th have v: "missing_percentage (analyze_missing_data people_table)
      = dscale (ddiv (real 2) (real (6 * 2))) 100"
    by (rule conjunct2 [THEN conjunct1])
  have v': "missing_percentage (analyze_missing_data people_table)
      = Fin (2345624805922133 / 2 ^ 47)"
    unfolding v using percent_sixth by simp
  from th obtain q where q: "missing_percentage (analyze_missing_data people_table) = Fin q"
    "\<bar>q - 100 * real 2 / (real 6 * real 2)\<bar> \<le> 100 * real 2 / (real 6 * real 2) / 2 ^ 51"
    by blast
  from q(1) v' have "q = 2345624805922133 / 2 ^ 47" by simp
  with q(2) have e: "\<bar>2345624805922133 / 2 ^ 47 - 100 * 2 / (6 * 2)\<bar>
      \<le> (100 * 2 / (6 * 2) / 2 ^ 51 :: real)"
    by simp
  from people_counts b v' e show ?thesis by blast
qed

text \<open>
  On the six-row table of the repository's own test (two nulls in twelve cells) the
  analyzer reports the double printed as 16.666666666666664. This is not the number
  \<open>100 * 2 / 12\<close>, and not the double that \<open>100 * 2 / 12\<close> evaluates to either, which is the
  next one above it (printed as 16.666666666666668).
\<close>

theorem missing_percentage_counterexample:
  "missing_percentage (analyze_missing_data people_table) = Fin (2345624805922133 / 2 ^ 47)
   \<and> missing_percentage (analyze_missing_data people_table) \<noteq> Fin (100 * 2 / (6 * 2))
   \<and> round_double (100 * 2 / 12) = Fin (4691249611844267 / 2 ^ 48)
   \<and> missing_percentage (analyze_missing_data people_table) \<noteq> round_double (100 * 2 / 12)"
proof -
  have v: "missing_percentage (analyze_missing_data people_table)
      = Fin (2345624805922133 / 2 ^ 47)"
    unfolding missing_percentage_value total_missing_count people_counts
    using percent_sixth by simp
  show ?thesis
    unfolding v round_fifty_thirds by simp
qed

subsection \<open>Combined outlier set\<close>

lemma fold_union_stat:
  "fold (\<lambda>(method, indices) a. a \<union> set indices) ms acc
     = acc \<union> (\<Union>mi \<in> set ms. set (snd mi))"
  by (induction ms arbitrary: acc) (auto simp: case_prod_beta)

lemma fold_union_cols:
  "fold (\<lambda>(col, results) acc.
       fold (\<lambda>(method, indices) a. a \<union> set indices) (outlier_indices results) acc) st acc
     = acc \<union> (\<Union>cr \<in> set st. \<Union>mi \<in> set (outlier_indices (snd cr)). set (snd mi))"
  by (induction st arbitrary: acc) (auto simp: case_prod_beta fold_union_stat)

lemma fold_union_ml:
  "fold (\<lambda>(method, results) acc.
       case results of MLOutliers n indices \<Rightarrow> acc \<union> set indices | _ \<Rightarrow> acc) ml acc
     = acc \<union> (\<Union>e \<in> set ml. ml_flagged (snd e))"
proof (induction ml arbitrary: acc)
  case Nil
  then show ?case by simp
next
  case (Cons e ml)
  then show ?case
    by (cases "snd e") (auto simp: case_prod_beta ml_flagged_def)
qed

lemma combined_set:
  "all_outlier_indices (combine_outlier_results st ml)
     = (\<Union>cr \<in> set st. \<Union>mi \<in> set (outlier_indices (snd cr)). set (snd mi))
       \<union> (\<Union>e \<in> set ml. ml_flagged (snd e))"
  by (simp add: combine_outlier_results_def Let_def fold_union_cols fold_union_ml)

text \<open>
  C5. The combined outlier set is the union of the row labels flagged by every
  statistical method on every column and by every model-based method; so it contains
  each method's flagged set, and \<open>total_outliers\<close> is the number of its elements.
\<close>

theorem combined_outliers_union:
  "all_outlier_indices (combine_outlier_results st ml)
     = (\<Union>cr \<in> set st. \<Union>mi \<in> set (outlier_indices (snd cr)). set (snd mi))
       \<union> (\<Union>e \<in> set ml. ml_flagged (snd e))
   \<and> (\<forall>cr \<in> set st. \<forall>mi \<in> set (outlier_indices (snd cr)).
         set (snd mi) \<subseteq> all_outlier_indices (combine_outlier_results st ml))
   \<and> (\<forall>e \<in> set ml. ml_flagged (snd e) \<subseteq> all_outlier_indices (combine_outlier_results st ml))
   \<and> total_outliers (combine_outlier_results st ml)
       = card (all_outlier_indices (combine_outlier_results st ml))"
proof (intro conjI)
  show "all_outlier_indices (combine_outlier_results st ml)
     = (\<Union>cr \<in> set st. \<Union>mi \<in> set (outlier_indices (snd cr)). set (snd mi))
       \<union> (\<Union>e \<in> set ml. ml_flagged (snd e))"
    by (rule combined_set)
  show "\<forall>cr \<in> set st. \<forall>mi \<in> set (outlier_indices (snd cr)).
         set (snd mi) \<subseteq> all_outlier_indices (combine_outlier_results st ml)"
    unfolding combined_set by blast
  show "\<forall>e \<in> set ml. ml_flagged (snd e) \<subseteq> all_outlier_indices (combine_outlier_results st ml)"
    unfolding combined_set by blast
  show "total_outliers (combine_outlier_results st ml)
       = card (all_outlier_indices (combine_outlier_results st ml))"
    by (simp add: combine_outlier_results_def Let_def)
qed

theorem combined_outliers_union_witness:
  "all_outlier_indices (combine_outlier_results age_statistical age_ml_based) = {1, 4}
   \<and> set [4] \<subseteq> all_outlier_indices (combine_outlier_results age_statistical age_ml_based)
   \<and> ml_flagged (MLOutliers 2 [4, 1])
        \<subseteq> all_outlier_indices (combine_outlier_results age_statistical age_ml_based)
   \<and> total_outliers (combine_outlier_results age_statistical age_ml_based) = 2"
proof -
  note u = combined_outliers_union [of age_statistical age_ml_based]
  have s: "all_outlier_indices (combine_outlier_results age_statistical age_ml_based) = {1, 4}"
    using u by (auto simp: age_statistical_def age_ml_based_def ml_flagged_def)
  have "(''age'', snd (hd age_statistical)) \<in> set age_statistical"
    by (simp add: age_statistical_def)
  moreover have "(''iqr'', [4]) \<in> set (outlier_indices (snd (''age'', snd (hd age_statistical))))"
    by (simp add: age_statistical_def)
  ultimately have a: "set (snd (''iqr'', [4::nat]))
      \<subseteq> all_outlier_indices (combine_outlier_results age_statistical age_ml_based)"
    using u by blast
  have "(''isolation_forest'', MLOutliers 2 [4, 1]) \<in> set age_ml_based"
    by (simp add: age_ml_based_def)
  then have b: "ml_flagged (snd (''isolation_forest'', MLOutliers 2 [4, 1]))
      \<subseteq> all_outlier_indices (combine_outlier_results age_statistical age_ml_based)"
    using u by blast
  have c: "total_outliers (combine_outlier_results age_statistical age_ml_based) = 2"
    using u s by simp
  from s a b c show ?thesis by simp
qed

subsection \<open>Modified Z-score on a column with zero MAD\<close>

lemma mz_pred:
  "fl_less (Fin 3.5) (fl_abs (fdiv (0.6745 * (x - med)) 0)) \<longleftrightarrow> x \<noteq> med"
  by (auto simp: fdiv_def)

lemma zero_mad_flagged:
  assumes "mad (map snd col_data) = 0"
  shows "modified_zscore_flagged col_data
     = map fst (filter (\<lambda>(i, x). x \<noteq> median (map snd col_data)) col_data)"
proof -
  have "modified_zscore_flagged col_data
     = map fst (filter (\<lambda>(i, x). fl_less (Fin 3.5)
          (fl_abs (fdiv (0.6745 * (x - median (map snd col_data))) 0))) col_data)"
    unfolding modified_zscore_flagged_def Let_def assms ..
  then show ?thesis unfolding mz_pred .
qed

text \<open>
  C7. For a numeric column with at least one value whose median absolute deviation is 0,
  the modified Z-score detector returns a result (the division by the MAD yields an
  infinity or not-a-number, never an error), and the rows it flags are exactly those
  whose value differs from the column median.
\<close>

theorem zero_mad_flags_non_median:
  assumes "col_data = dropna (index df) (cells s)"
    and "col_data \<noteq> []"
    and "mad (map snd col_data) = 0"
  shows "modified_zscore_flagged col_data
           = map fst (filter (\<lambda>(i, x). x \<noteq> median (map snd col_data)) col_data)
       \<and> (\<exists>r. statistical_outlier_detection df [(col, s)] = [(col, r)]
              \<and> map_of (outlier_indices r) ''modified_zscore''
                  = Some (map fst (filter (\<lambda>(i, x). x \<noteq> median (map snd col_data)) col_data))
              \<and> modified_zscore_outliers r
                  = length (filter (\<lambda>(i, x). x \<noteq> median (map snd col_data)) col_data))"
proof -
  note f = zero_mad_flagged [OF assms(3)]
  have "\<exists>r. statistical_outlier_detection df [(col, s)] = [(col, r)]
              \<and> map_of (outlier_indices r) ''modified_zscore''
                  = Some (modified_zscore_flagged col_data)
              \<and> modified_zscore_outliers r = length (modified_zscore_flagged col_data)"
    using assms(1,2) by (simp add: statistical_outlier_detection_def Let_def)
  then show ?thesis unfolding f by simp
qed

theorem zero_mad_flags_non_median_witness:
  "dropna (index flat_table) [Num 1, Num 1, Num 1, Num 5] = [(0, 1), (1, 1), (2, 1), (3, 5)]
   \<and> mad [1, 1, 1, 5] = 0 \<and> median [1, 1, 1, 5] = 1
   \<and> modified_zscore_flagged [(0, 1), (1, 1), (2, 1), (3, 5)] = [3]"
proof -
  let ?s = "\<lparr> dtype = Float64, cells = [Num 1, Num 1, Num 1, Num 5] \<rparr>"
  let ?d = "[(0::nat, 1::real), (1, 1), (2, 1), (3, 5)]"
  have a: "dropna (index flat_table) (cells ?s) = ?d"
    by (simp add: flat_table_def dropna_def)
  have b: "?d \<noteq> []" by simp
  have c: "median [1, 1, 1, 5] = 1" by (simp add: median_def)
  have d: "mad [1, 1, 1, 5] = 0" by (simp add: median_def mad_def)
  have d': "mad (map snd ?d) = 0" using d by simp
  have e: "modified_zscore_flagged ?d = [3]"
    using zero_mad_flags_non_median [OF a [symmetric] b d', THEN conjunct1] c by simp
  from a have a': "dropna (index flat_table) [Num 1, Num 1, Num 1, Num 5] = ?d" by simp
  from a' d c e show ?thesis by blast
qed

subsection \<open>Suggested type\<close>

lemma ratio_gt: "n \<noteq> 0 \<Longrightarrow> fl_less (Fin 0.8) (fdiv (real k) (real n)) \<longleftrightarrow> 0.8 * real n < real k"
  by (simp add: fdiv_def field_simps)

text \<open>
  C4, as amended. For every column with at least one row the suggested type is decided in
  this order: numeric when strictly more than 80% of all the values of the column (nulls
  counted in the total) convert to a number, where a number converts, a string converts
  when the parser accepts it, a null does not, and a datetime column converts entirely
  (its time stamps, absent ones included, are read as integers); else datetime when the
  column parses as dates; else categorical when the number of distinct non-null values is
  below half the number of rows; else text (\<open>object\<close>). The cleaning engine's variant
  first answers datetime for a column that already is a datetime column.
\<close>

theorem suggest_dtype_order:
  assumes "cells s \<noteq> []"
  shows "suggest_dtype L s =
           Inr (if 0.8 * real (length (cells s))
                    < real (if dtype s = Datetime64 then length (cells s)
                            else length (filter (numeric_ok L) (cells s)))
                then ''numeric''
                else if to_datetime_ok L s then ''datetime''
                else if real (card (set (filter (\<lambda>c. c \<noteq> Null) (cells s))))
                          < 0.5 * real (length (cells s))
                then ''categorical''
                else ''object'')
       \<and> suggest_optimal_dtype L s =
           (if dtype s = Datetime64 then Inr ''datetime'' else suggest_dtype L s)
       \<and> \<not> numeric_ok L Null \<and> numeric_ok L (Num r)
       \<and> numeric_ok L (Str x) = parses_num L x"
proof -
  from assms have n: "length (cells s) \<noteq> 0" by simp
  have c: "real (numeric_count L s)
      = real (if dtype s = Datetime64 then length (cells s)
              else length (filter (numeric_ok L) (cells s)))"
    by (simp add: numeric_count_def)
  have r: "real (nunique s) / real (length (cells s)) < 0.5
      \<longleftrightarrow> real (card (set (filter (\<lambda>c. c \<noteq> Null) (cells s)))) < 0.5 * real (length (cells s))"
    using n by (simp add: field_simps nunique_def)
  have a: "suggest_dtype L s =
           Inr (if 0.8 * real (length (cells s))
                    < real (if dtype s = Datetime64 then length (cells s)
                            else length (filter (numeric_ok L) (cells s)))
                then ''numeric''
                else if to_datetime_ok L s then ''datetime''
                else if real (card (set (filter (\<lambda>c. c \<noteq> Null) (cells s))))
                          < 0.5 * real (length (cells s))
                then ''categorical''
                else ''object'')"
    unfolding suggest_dtype_def Let_def ratio_gt [OF n] r c using n by simp
  have b: "suggest_optimal_dtype L s =
           (if dtype s = Datetime64 then Inr ''datetime'' else suggest_dtype L s)"
    by (simp add: suggest_dtype_def suggest_optimal_dtype_def)
  have d: "\<not> numeric_ok L Null" "numeric_ok L (Num r)" "numeric_ok L (Str x) = parses_num L x"
    by (simp_all add: numeric_ok_def)
  from a b d show ?thesis by blast
qed

lemma basic_parses:
  "parses_num basic_libs ''1''" "parses_num basic_libs ''2''" "parses_num basic_libs ''3''"
  "parses_num basic_libs ''4''" "parses_num basic_libs ''5''" "\<not> parses_num basic_libs ''x''"
  "\<not> parses_num basic_libs ''a''" "\<not> parses_num basic_libs ''b''" "\<not> parses_num basic_libs ''c''"
  by (simp_all add: basic_libs_def)

lemma basic_datetime:
  "\<not> to_datetime_ok basic_libs digits_series" "to_datetime_ok basic_libs late_series"
  "\<not> to_datetime_ok basic_libs words_series" "\<not> to_datetime_ok basic_libs grade_series"
  by (simp_all add: basic_libs_def digits_series_def late_series_def words_series_def
      grade_series_def)

theorem suggest_dtype_order_witness:
  "cells digits_series \<noteq> [] \<and> suggest_dtype basic_libs digits_series = Inr ''numeric''
   \<and> cells late_series \<noteq> [] \<and> suggest_dtype basic_libs late_series = Inr ''datetime''
   \<and> cells grade_series \<noteq> [] \<and> suggest_dtype basic_libs grade_series = Inr ''categorical''
   \<and> cells words_series \<noteq> [] \<and> suggest_dtype basic_libs words_series = Inr ''object''
   \<and> suggest_optimal_dtype basic_libs words_series = Inr ''object''
   \<and> cells stamp_series \<noteq> [] \<and> suggest_dtype basic_libs stamp_series = Inr ''numeric''
   \<and> suggest_optimal_dtype basic_libs stamp_series = Inr ''datetime''"
proof -
  have ne: "cells digits_series \<noteq> []" "cells late_series \<noteq> []" "cells grade_series \<noteq> []"
    "cells words_series \<noteq> []" "cells stamp_series \<noteq> []"
    by (simp_all add: digits_series_def late_series_def grade_series_def words_series_def
        stamp_series_def)
  note ok = suggest_dtype_order [of _ basic_libs, THEN conjunct2, THEN conjunct2]
  have nk: "\<not> numeric_ok basic_libs Null" "\<And>r. numeric_ok basic_libs (Num r)"
    "\<And>x. numeric_ok basic_libs (Str x) = parses_num basic_libs x"
    using ok [OF ne(1)] by blast+
  have a: "suggest_dtype basic_libs digits_series = Inr ''numeric''"
    using suggest_dtype_order [OF ne(1), of basic_libs, THEN conjunct1]
    by (simp add: digits_series_def nk basic_parses)
  have b: "suggest_dtype basic_libs late_series = Inr ''datetime''"
    using suggest_dtype_order [OF ne(2), of basic_libs, THEN conjunct1] basic_datetime(2)
    by (simp add: late_series_def nk)
  have c: "suggest_dtype basic_libs grade_series = Inr ''categorical''"
    using suggest_dtype_order [OF ne(3), of basic_libs, THEN conjunct1] basic_datetime(4)
    by (simp add: grade_series_def nk basic_parses)
  have d: "suggest_dtype basic_libs words_series = Inr ''object''"
    using suggest_dtype_order [OF ne(4), of basic_libs, THEN conjunct1] basic_datetime(3)
    by (simp add: words_series_def nk basic_parses)
  have d': "suggest_optimal_dtype basic_libs words_series = Inr ''object''"
    using suggest_dtype_order [OF ne(4), of basic_libs, THEN conjunct2, THEN conjunct1] d
    by (simp add: words_series_def)
  have e: "suggest_dtype basic_libs stamp_series = Inr ''numeric''"
    using suggest_dtype_order [OF ne(5), of basic_libs, THEN conjunct1]
    by (simp add: stamp_series_def)
  have e': "suggest_optimal_dtype basic_libs stamp_series = Inr ''datetime''"
    using suggest_dtype_order [OF ne(5), of basic_libs, THEN conjunct2, THEN conjunct1]
    by (simp add: stamp_series_def)
  from ne a b c d d' e e' show ?thesis by blast
qed

text \<open>
  A float column with one null among five values: all of its non-null values are numbers,
  so the order as the specification words it answers numeric; the engine counts four of
  five, which is not more than 80%, and goes on to answer datetime.
\<close>

theorem suggest_dtype_counterexample:
  "spec_suggest_dtype basic_libs gappy_series = ''numeric''
   \<and> suggest_dtype basic_libs gappy_series = Inr ''datetime''
   \<and> suggest_optimal_dtype basic_libs gappy_series = Inr ''datetime''"
  by (simp add: spec_suggest_dtype_def suggest_dtype_def suggest_optimal_dtype_def Let_def
      numeric_count_def numeric_ok_def basic_libs_def gappy_series_def fdiv_def)

subsection \<open>Imputation policy\<close>

lemma map_of_replace:
  "col \<in> set (map fst cs) \<Longrightarrow>
     map_of (map (\<lambda>c. if fst c = col then (col, s) else c) cs) col = Some s"
  by (induction cs) auto

lemma map_of_append_new:
  "col \<notin> set (map fst cs) \<Longrightarrow> map_of (cs @ [(col, s)]) col = Some s"
  by (induction cs) auto

lemma get_col_set_col: "get_col (set_col df col s) col = Some s"
proof (cases "col \<in> set (col_names df)")
  case True
  then show ?thesis
    using map_of_replace [of col "columns df" s]
    by (simp add: get_col_def set_col_def col_names_def)
next
  case False
  then show ?thesis
    using map_of_append_new [of col "columns df" s]
    by (simp add: get_col_def set_col_def col_names_def del: map_of_append)
qed

lemma simple_impute_fills:
  assumes "dtype s = Float64" and "present (cells s) \<noteq> []"
  shows "simple_impute stat s =
     Inr (map (\<lambda>c. case c of Null \<Rightarrow> Num (stat (present (cells s))) | _ \<Rightarrow> c) (cells s))"
  using assms by (simp add: simple_impute_def)

text \<open>
  C8. For a column listed with missing percentage \<open>p\<close>, the method selected is
  \<open>drop_column\<close> when \<open>p > 50\<close>; for a numeric column \<open>mean\<close> when \<open>p < 5\<close>, \<open>median\<close> when
  \<open>p < 20\<close>, else \<open>knn\<close>; for any other column \<open>mode\<close> when \<open>p < 10\<close>, else \<open>constant\<close>.
  A numeric column with nulls, at least one value and \<open>p < 5\<close> (3% for instance) gets mean
  imputation: after the step every null holds the mean of the values that were present,
  and the present values are unchanged.
\<close>

theorem imputation_policy:
  assumes "map_of (column_missing_pct md) col = Some (Fin p)"
    and "get_col df col = Some s"
  shows "select_imputation_method df col n md =
           Inr (if 50 < p then ''drop_column''
                else if dtype s = Float64
                     then (if p < 5 then ''mean'' else if p < 20 then ''median'' else ''knn'')
                     else (if p < 10 then ''mode'' else ''constant''))
       \<and> (dtype s = Float64 \<and> p < 5 \<and> 0 < isnull_sum s \<and> present (cells s) \<noteq> []
            \<and> length (cells s) = len_df df \<longrightarrow>
          (\<exists>df2. impute_loop L md [col] df = Inr df2 \<and>
             get_col df2 col =
               Some \<lparr> dtype = Float64,
                      cells = map (\<lambda>c. case c of Null \<Rightarrow> Num (mean (present (cells s))) | _ \<Rightarrow> c)
                                (cells s) \<rparr>))"
proof (intro conjI impI)
  show sel: "select_imputation_method df col n md =
           Inr (if 50 < p then ''drop_column''
                else if dtype s = Float64
                     then (if p < 5 then ''mean'' else if p < 20 then ''median'' else ''knn'')
                     else (if p < 10 then ''mode'' else ''constant''))"
    using assms by (simp add: select_imputation_method_def is_numeric_dtype_def)
next
  assume h: "dtype s = Float64 \<and> p < 5 \<and> 0 < isnull_sum s \<and> present (cells s) \<noteq> []
            \<and> length (cells s) = len_df df"
  let ?filled = "map (\<lambda>c. case c of Null \<Rightarrow> Num (mean (present (cells s))) | _ \<Rightarrow> c) (cells s)"
  have sel: "select_imputation_method df col (isnull_sum s) md = Inr ''mean''"
    using assms h by (simp add: select_imputation_method_def is_numeric_dtype_def)
  have app: "apply_imputation L df col ''mean'' = Inr (df, Arr Float64 ?filled)"
    using assms(2) h by (simp add: apply_imputation_def simple_impute_fills)
  have st: "setitem df col (Arr Float64 ?filled)
      = Inr (set_col df col \<lparr> dtype = Float64, cells = ?filled \<rparr>)"
    using h by (simp add: setitem_def)
  have "impute_loop L md [col] df = Inr (set_col df col \<lparr> dtype = Float64, cells = ?filled \<rparr>)"
    using assms(2) h sel app st by (simp add: Let_def)
  then show "\<exists>df2. impute_loop L md [col] df = Inr df2 \<and>
             get_col df2 col = Some \<lparr> dtype = Float64, cells = ?filled \<rparr>"
    by (simp add: get_col_set_col)
qed

lemma percent_one_in_25: "dscale (ddiv 1 25) 100 = Fin 4"
  using round_double_scaled [of "1 / 25" 57] round_double_scaled [of "5764607523034235 / 2 ^ 57 * 100" 50]
  by (simp add: ddiv_def round_half_even_def)

lemma readings_pct:
  "map_of (column_missing_pct (cleaner_analyze_missing_data readings_table)) ''temp'' = Some (Fin 4)"
  by (simp add: cleaner_analyze_missing_data_def Let_def readings_table_def isnull_sum_def
      len_df_def percent_one_in_25)

lemma readings_col:
  "get_col readings_table ''temp'' = Some (snd (hd (columns readings_table)))"
  by (simp add: get_col_def readings_table_def)

lemma readings_mean: "mean (present (cells (snd (hd (columns readings_table))))) = 2.125"
  by (simp add: mean_def present_def readings_table_def)

theorem imputation_policy_witness:
  "map_of (column_missing_pct (cleaner_analyze_missing_data readings_table)) ''temp'' = Some (Fin 4)
   \<and> select_imputation_method readings_table ''temp'' 1
        (cleaner_analyze_missing_data readings_table) = Inr ''mean''
   \<and> (\<exists>df2. impute_loop basic_libs (cleaner_analyze_missing_data readings_table) [''temp'']
               readings_table = Inr df2
          \<and> map_of (columns df2) ''temp'' =
              Some \<lparr> dtype = Float64,
                cells = [Num 2.125, Num 2, Num 2, Num 2, Num 2, Num 2, Num 2, Num 2, Num 2, Num 2,
                         Num 2, Num 2, Num 2, Num 2, Num 2, Num 2, Num 2, Num 2, Num 2, Num 2,
                         Num 2, Num 2, Num 2, Num 2, Num 5] \<rparr>)"
proof -
  let ?s = "snd (hd (columns readings_table))"
  note th = imputation_policy [OF readings_pct readings_col, of 1 basic_libs]
  have a: "dtype ?s = Float64" "(4::real) < 5" "0 < isnull_sum ?s" "present (cells ?s) \<noteq> []"
    "length (cells ?s) = len_df readings_table"
    by (simp_all add: readings_table_def isnull_sum_def present_def len_df_def)
  have c: "map (\<lambda>c. case c of Null \<Rightarrow> Num (mean (present (cells ?s))) | _ \<Rightarrow> c) (cells ?s)
      = [Num 2.125, Num 2, Num 2, Num 2, Num 2, Num 2, Num 2, Num 2, Num 2, Num 2,
                         Num 2, Num 2, Num 2, Num 2, Num 2, Num 2, Num 2, Num 2, Num 2, Num 2,
                         Num 2, Num 2, Num 2, Num 2, Num 5]"
    unfolding readings_mean by (simp add: readings_table_def)
  have s1: "select_imputation_method readings_table ''temp'' 1
        (cleaner_analyze_missing_data readings_table) = Inr ''mean''"
    using th [THEN conjunct1] a(1) by simp
  have s2: "\<exists>df2. impute_loop basic_libs (cleaner_analyze_missing_data readings_table) [''temp'']
               readings_table = Inr df2
          \<and> get_col df2 ''temp'' = Some \<lparr> dtype = Float64,
                cells = map (\<lambda>c. case c of Null \<Rightarrow> Num (mean (present (cells ?s))) | _ \<Rightarrow> c)
                          (cells ?s) \<rparr>"
    using th [THEN conjunct2] a by blast
  from readings_pct s1 s2 show ?thesis unfolding c get_col_def by blast
qed

subsection \<open>Quantiles and fences\<close>

lemma quantile_between:
  assumes "xs \<noteq> []" and "0 \<le> q" and "q \<le> 1"
  defines "s \<equiv> sort xs"
  defines "h \<equiv> real (length xs - 1) * q"
  shows "s ! nat \<lfloor>h\<rfloor> \<le> quantile xs q"
    and "quantile xs q \<le> s ! min (nat \<lfloor>h\<rfloor> + 1) (length xs - 1)"
proof -
  let ?n = "length xs"
  let ?lo = "nat \<lfloor>h\<rfloor>"
  let ?hi = "min (?lo + 1) (?n - 1)"
  have n: "0 < ?n" using assms(1) by simp
  have h0: "0 \<le> h" using assms(2) by (simp add: h_def)
  have h1: "h \<le> real (?n - 1)" using assms(2,3) by (simp add: h_def mult_left_le)
  have lo_le: "real ?lo \<le> h" using h0 by simp
  have lo_n: "?lo \<le> ?n - 1" using h1 h0 by (metis floor_mono floor_of_nat nat_int nat_mono)
  have frac0: "0 \<le> h - real ?lo" using lo_le by simp
  have frac1: "h - real ?lo \<le> 1" using h0 by linarith
  have srt: "sorted s" by (simp add: s_def)
  have len: "length s = ?n" by (simp add: s_def)
  have hi_lt: "?hi < length s" using n len by arith
  have lo_hi: "?lo \<le> ?hi" using lo_n by arith
  have d: "s ! ?lo \<le> s ! ?hi"
    using srt lo_hi hi_lt by (rule sorted_nth_mono)
  have q: "quantile xs q = s ! ?lo + (h - real ?lo) * (s ! ?hi - s ! ?lo)"
    by (simp add: quantile_def Let_def s_def h_def)
  show "s ! ?lo \<le> quantile xs q"
    unfolding q using d frac0 by simp
  have "(h - real ?lo) * (s ! ?hi - s ! ?lo) \<le> 1 * (s ! ?hi - s ! ?lo)"
    using d frac1 by (intro mult_right_mono) auto
  then show "quantile xs q \<le> s ! ?hi"
    unfolding q by simp
qed

lemma quantile_mono:
  assumes "xs \<noteq> []" and "0 \<le> p" and "p \<le> q" and "q \<le> 1"
  shows "quantile xs p \<le> quantile xs q"
proof -
  let ?n = "length xs"
  define s where "s = sort xs"
  define hp where "hp = real (?n - 1) * p"
  define hq where "hq = real (?n - 1) * q"
  let ?lp = "nat \<lfloor>hp\<rfloor>" and ?lq = "nat \<lfloor>hq\<rfloor>"
  have n: "0 < ?n" using assms(1) by simp
  have hpq: "hp \<le> hq" using assms(3) by (simp add: hp_def hq_def mult_left_mono)
  have hp0: "0 \<le> hp" using assms(2) by (simp add: hp_def)
  have hq0: "0 \<le> hq" using hp0 hpq by simp
  have hq1: "hq \<le> real (?n - 1)" using assms by (simp add: hq_def mult_left_le)
  have lq_n: "?lq \<le> ?n - 1" using hq1 hq0 by (metis floor_mono floor_of_nat nat_int nat_mono)
  have lpq: "?lp \<le> ?lq" using hpq by (simp add: floor_mono nat_mono)
  have srt: "sorted s" and len: "length s = ?n" by (simp_all add: s_def)
  have qp: "quantile xs p = s ! ?lp + (hp - real ?lp) * (s ! min (?lp + 1) (?n - 1) - s ! ?lp)"
    by (simp add: quantile_def Let_def s_def hp_def)
  have qq: "quantile xs q = s ! ?lq + (hq - real ?lq) * (s ! min (?lq + 1) (?n - 1) - s ! ?lq)"
    by (simp add: quantile_def Let_def s_def hq_def)
  show ?thesis
  proof (cases "?lp = ?lq")
    case True
    have hi_lt: "min (?lq + 1) (?n - 1) < length s" using n len by arith
    have lo_hi: "?lq \<le> min (?lq + 1) (?n - 1)" using lq_n by arith
    have d: "s ! ?lq \<le> s ! min (?lq + 1) (?n - 1)"
      using srt lo_hi hi_lt by (rule sorted_nth_mono)
    have "(hp - real ?lq) * (s ! min (?lq + 1) (?n - 1) - s ! ?lq)
        \<le> (hq - real ?lq) * (s ! min (?lq + 1) (?n - 1) - s ! ?lq)"
      using d hpq by (intro mult_right_mono) auto
    then show ?thesis unfolding qp qq True by simp
  next
    case False
    with lpq have lt: "?lp + 1 \<le> ?lq" by simp
    have "quantile xs p \<le> s ! min (?lp + 1) (?n - 1)"
      using quantile_between(2) [OF assms(1,2)] assms(3,4) by (simp add: s_def hp_def)
    also have "\<dots> \<le> s ! ?lq"
    proof -
      have "?lq < length s" using lq_n n len by arith
      moreover have "min (?lp + 1) (?n - 1) \<le> ?lq" using lt by arith
      ultimately show ?thesis using srt by (intro sorted_nth_mono)
    qed
    also have "\<dots> \<le> quantile xs q"
      using quantile_between(1) [OF assms(1), of q] assms by (simp add: s_def hq_def)
    finally show ?thesis .
  qed
qed

lemma fence_order: "(a::real) \<le> b \<Longrightarrow> a - 1.5 * (b - a) \<le> b + 1.5 * (b - a)"
  by (simp add: algebra_simps)

lemma iqr_fences_ordered:
  assumes "xs \<noteq> []"
  shows "fst (iqr_fences xs) \<le> snd (iqr_fences xs)"
proof -
  have "quantile xs 0.25 \<le> quantile xs 0.75"
    using assms by (intro quantile_mono) auto
  then show ?thesis
    unfolding iqr_fences_def Let_def fst_conv snd_conv by (rule fence_order)
qed

subsection \<open>IQR capping\<close>

lemma dropna_present:
  "length idx = length cs \<Longrightarrow> map snd (dropna idx cs) = present cs"
proof (induction idx cs rule: list_induct2)
  case Nil
  then show ?case by (simp add: dropna_def present_def)
next
  case (Cons i idx c cs)
  then show ?case by (cases c) (simp_all add: dropna_def present_def)
qed

lemma map_zip_mask:
  "map (\<lambda>(m, c). F m c) (zip (map g cs) cs) = map (\<lambda>c. F (g c) c) cs"
  by (induction cs) simp_all

lemma clip_cases:
  "lo \<le> hi \<Longrightarrow> clip x lo hi = (if x < lo then lo else if hi < x then hi else x)"
  by (simp add: clip_def min_def max_def)

lemma no_flag_identity:
  assumes "filter id (map g cs) = []"
  shows "map (\<lambda>c. if g c then F c else c) cs = cs"
proof -
  from assms have "\<forall>c \<in> set cs. \<not> g c"
    by (simp add: filter_empty_conv)
  then show ?thesis by (simp add: map_idI)
qed

lemma cap_column_cells:
  assumes "length idx = length (cells s)" and "present (cells s) \<noteq> []"
  shows "cells (cap_column idx s)
     = map (capped (fst (iqr_fences (present (cells s)))) (snd (iqr_fences (present (cells s)))))
         (cells s)"
proof -
  let ?lo = "fst (iqr_fences (present (cells s)))"
  let ?hi = "snd (iqr_fences (present (cells s)))"
  let ?g = "\<lambda>c. case c of Num x \<Rightarrow> x < ?lo \<or> x > ?hi | _ \<Rightarrow> False"
  let ?F = "\<lambda>c. case c of Num x \<Rightarrow> Num (clip x ?lo ?hi) | _ \<Rightarrow> c"
  have ord: "?lo \<le> ?hi" using assms(2) by (rule iqr_fences_ordered)
  have p: "map snd (dropna idx (cells s)) = present (cells s)"
    using assms(1) by (rule dropna_present)
  have ne: "length (dropna idx (cells s)) \<noteq> 0"
    using assms(2) p by (metis length_0_conv list.map_disc_iff)
  have ne': "(length (dropna idx (cells s)) = 0) = False" using ne by simp
  have step: "cap_column idx s =
      (if 0 < length (filter id (map ?g (cells s)))
       then s\<lparr> cells := map (\<lambda>(m, c). case c of Num x \<Rightarrow> if m then Num (clip x ?lo ?hi) else c
                                         | _ \<Rightarrow> c)
                          (zip (map ?g (cells s)) (cells s)) \<rparr>
       else s)"
    by (simp only: cap_column_def Let_def p case_prod_beta ne' if_False)
  have FG: "\<And>c. (if ?g c then ?F c else c) = capped ?lo ?hi c"
    using ord by (auto simp: capped_def clip_cases split: cell.splits)
  have inner: "(\<lambda>(m, c). case c of Num x \<Rightarrow> if m then Num (clip x ?lo ?hi) else c | _ \<Rightarrow> c)
       = (\<lambda>(m, c). if m then ?F c else c)"
    by (auto split: cell.splits)
  show ?thesis
  proof (cases "0 < length (filter id (map ?g (cells s)))")
    case True
    have "cells (cap_column idx s)
        = map (\<lambda>(m, c). if m then ?F c else c) (zip (map ?g (cells s)) (cells s))"
      unfolding step inner using True by simp
    also have "\<dots> = map (\<lambda>c. if ?g c then ?F c else c) (cells s)"
      by (rule map_zip_mask)
    finally show ?thesis by (simp add: FG)
  next
    case False
    then have e: "filter id (map ?g (cells s)) = []"
      by (simp only: length_greater_0_conv not_not)
    have "cells (cap_column idx s) = cells s"
      unfolding step using False by simp
    also have "\<dots> = map (\<lambda>c. if ?g c then ?F c else c) (cells s)"
      using no_flag_identity [OF e, of ?F] by simp
    finally show ?thesis by (simp add: FG)
  qed
qed


lemma cap_column_dtype: "dtype (cap_column idx s) = dtype s"
  by (simp add: cap_column_def Let_def case_prod_beta)

lemma capped_in_range:
  "lo \<le> hi \<Longrightarrow> capped lo hi c = Num x \<Longrightarrow> lo \<le> x \<and> x \<le> hi"
  by (cases c) (auto simp: capped_def split: if_splits)

lemma capped_changed:
  "capped lo hi c \<noteq> c \<Longrightarrow> capped lo hi c = Num lo \<or> capped lo hi c = Num hi"
  by (cases c) (auto simp: capped_def split: if_splits)

text \<open>
  C6, as amended. For a numeric column with at least one value, the capping pass leaves
  every non-null value inside the fences that were computed on the column before
  capping: a value below the lower fence becomes the lower fence, a value above the
  upper fence becomes the upper fence, every other cell is unchanged; so each value the
  pass changed sits exactly at one of those fences. (The fences recomputed on the capped
  column can be narrower, and a second pass can then change values again.)
\<close>

theorem capping_within_prior_fences:
  assumes "length idx = length (cells s)" and "present (cells s) \<noteq> []"
    and "lo = fst (iqr_fences (present (cells s)))"
    and "hi = snd (iqr_fences (present (cells s)))"
  shows "lo \<le> hi
       \<and> dtype (cap_column idx s) = dtype s
       \<and> cells (cap_column idx s) = map (capped lo hi) (cells s)
       \<and> (\<forall>x. Num x \<in> set (cells (cap_column idx s)) \<longrightarrow> lo \<le> x \<and> x \<le> hi)
       \<and> (\<forall>i < length (cells s).
             cells (cap_column idx s) ! i \<noteq> cells s ! i \<longrightarrow>
             cells (cap_column idx s) ! i = Num lo \<or> cells (cap_column idx s) ! i = Num hi)"
proof -
  have ord: "lo \<le> hi"
    unfolding assms(3,4) using assms(2) by (rule iqr_fences_ordered)
  have c: "cells (cap_column idx s) = map (capped lo hi) (cells s)"
    unfolding assms(3,4) using assms(1,2) by (rule cap_column_cells)
  have r: "\<forall>x. Num x \<in> set (cells (cap_column idx s)) \<longrightarrow> lo \<le> x \<and> x \<le> hi"
    unfolding c using capped_in_range [OF ord] by (auto simp: image_iff)
  have m: "\<forall>i < length (cells s).
             cells (cap_column idx s) ! i \<noteq> cells s ! i \<longrightarrow>
             cells (cap_column idx s) ! i = Num lo \<or> cells (cap_column idx s) ! i = Num hi"
    unfolding c using capped_changed by simp
  from ord c r m cap_column_dtype show ?thesis by blast
qed

lemma spike_fences: "iqr_fences (present (cells spike_series)) = (- 37.5, 62.5)"
  by (simp add: iqr_fences_def quantile_def present_def spike_series_def Let_def)

theorem capping_within_prior_fences_witness:
  "length [0, 1, 2, 3 :: nat] = length (cells spike_series)
   \<and> present (cells spike_series) \<noteq> []
   \<and> iqr_fences (present (cells spike_series)) = (- 37.5, 62.5)
   \<and> cells (cap_column [0, 1, 2, 3] spike_series) = [Num 0, Num 0, Num 0, Num 62.5]"
proof -
  have a: "length [0, 1, 2, 3 :: nat] = length (cells spike_series)"
    by (simp add: spike_series_def)
  have b: "present (cells spike_series) \<noteq> []"
    by (simp add: spike_series_def present_def)
  have lo: "- 37.5 = fst (iqr_fences (present (cells spike_series)))"
    and hi: "62.5 = snd (iqr_fences (present (cells spike_series)))"
    by (simp_all add: spike_fences)
  have "cells (cap_column [0, 1, 2, 3] spike_series)
      = map (capped (- 37.5) 62.5) (cells spike_series)"
    using capping_within_prior_fences [OF a b lo hi] by blast
  then have c: "cells (cap_column [0, 1, 2, 3] spike_series) = [Num 0, Num 0, Num 0, Num 62.5]"
    by (simp add: spike_series_def capped_def)
  from a b spike_fences c show ?thesis by blast
qed

theorem second_capping_counterexample:
  "cells (cap_column [0, 1, 2, 3] spike_series) = [Num 0, Num 0, Num 0, Num 62.5]
   \<and> iqr_fences (present (cells (cap_column [0, 1, 2, 3] spike_series))) = (- 23.4375, 39.0625)
   \<and> cells (cap_column [0, 1, 2, 3] (cap_column [0, 1, 2, 3] spike_series))
       = [Num 0, Num 0, Num 0, Num 39.0625]
   \<and> cap_column [0, 1, 2, 3] (cap_column [0, 1, 2, 3] spike_series)
       \<noteq> cap_column [0, 1, 2, 3] spike_series"
proof -
  have a: "cap_column [0, 1, 2, 3] spike_series
      = \<lparr> dtype = Float64, cells = [Num 0, Num 0, Num 0, Num 62.5] \<rparr>"
    by (simp add: cap_column_def dropna_def spike_series_def iqr_fences_def quantile_def Let_def
        clip_def)
  have b: "iqr_fences (present [Num 0, Num 0, Num 0, Num 62.5]) = (- 23.4375, 39.0625)"
    by (simp add: iqr_fences_def quantile_def present_def Let_def)
  have c: "cap_column [0, 1, 2, 3] \<lparr> dtype = Float64, cells = [Num 0, Num 0, Num 0, Num 62.5] \<rparr>
      = \<lparr> dtype = Float64, cells = [Num 0, Num 0, Num 0, Num 39.0625] \<rparr>"
    by (simp add: cap_column_def dropna_def iqr_fences_def quantile_def Let_def clip_def)
  show ?thesis unfolding a c using b by simp
qed

subsection \<open>Outlier treatment without a report\<close>

lemma map_of_distinct_unique:
  "distinct (map fst cs) \<Longrightarrow> (n, s) \<in> set cs \<Longrightarrow> map_of cs n = Some s"
  by (rule map_of_is_SomeI)

lemma replace_one_column:
  assumes "distinct (map fst cs)" and "(n, s) \<in> set cs"
  shows "map (\<lambda>c. if fst c = n then (n, f s) else c) cs
     = map (\<lambda>(m, t). if m = n then (m, f t) else (m, t)) cs"
proof (rule map_cong [OF refl])
  fix c assume c: "c \<in> set cs"
  obtain m t where mt: "c = (m, t)" by (cases c)
  show "(if fst c = n then (n, f s) else c) = (case c of (m, t) \<Rightarrow> if m = n then (m, f t) else (m, t))"
  proof (cases "m = n")
    case True
    with c mt assms have "t = s"
      by (metis map_of_is_SomeI option.inject)
    with True mt show ?thesis by simp
  next
    case False
    with mt show ?thesis by simp
  qed
qed

lemma cap_fold_columns:
  assumes "distinct (map fst cs)" and "distinct ns" and "set ns \<subseteq> fst ` set cs"
  shows "fold (\<lambda>col d. case get_col d col of
                          Some s \<Rightarrow> set_col d col (cap_column (index d) s)
                        | None \<Rightarrow> d)
              ns \<lparr> index = idx, columns = cs \<rparr>
     = \<lparr> index = idx,
         columns = map (\<lambda>(m, t). if m \<in> set ns then (m, cap_column idx t) else (m, t)) cs \<rparr>"
  using assms
proof (induction ns arbitrary: cs)
  case Nil
  then show ?case by (simp add: case_prod_beta)
next
  case (Cons n ns)
  from Cons.prems(3) obtain s where s: "(n, s) \<in> set cs" by auto
  have g: "get_col \<lparr> index = idx, columns = cs \<rparr> n = Some s"
    using Cons.prems(1) s by (simp add: get_col_def map_of_is_SomeI)
  have mem: "n \<in> set (col_names \<lparr> index = idx, columns = cs \<rparr>)"
    using s by (force simp: col_names_def)
  let ?cs = "map (\<lambda>(m, t). if m = n then (m, cap_column idx t) else (m, t)) cs"
  have step: "set_col \<lparr> index = idx, columns = cs \<rparr> n (cap_column idx s)
      = \<lparr> index = idx, columns = ?cs \<rparr>"
    using mem replace_one_column [OF Cons.prems(1) s, of "cap_column idx"]
    by (simp add: set_col_def)
  have names: "map fst ?cs = map fst cs"
    by (induction cs) auto
  have d: "distinct (map fst ?cs)"
    unfolding names by (rule Cons.prems(1))
  have "set ns \<subseteq> set (map fst cs)" using Cons.prems(3) by auto
  then have "set ns \<subseteq> set (map fst ?cs)" unfolding names .
  then have sub: "set ns \<subseteq> fst ` set ?cs" by (simp only: set_map)
  have dn: "distinct ns" and nn: "n \<notin> set ns" using Cons.prems(2) by simp_all
  have "fold (\<lambda>col d. case get_col d col of
                          Some s \<Rightarrow> set_col d col (cap_column (index d) s)
                        | None \<Rightarrow> d)
              (n # ns) \<lparr> index = idx, columns = cs \<rparr>
      = \<lparr> index = idx,
          columns = map (\<lambda>(m, t). if m \<in> set ns then (m, cap_column idx t) else (m, t)) ?cs \<rparr>"
    using Cons.IH [OF d dn sub] by (simp add: g step)
  also have "map (\<lambda>(m, t). if m \<in> set ns then (m, cap_column idx t) else (m, t)) ?cs
      = map (\<lambda>(m, t). if m \<in> set (n # ns) then (m, cap_column idx t) else (m, t)) cs"
    using nn by (auto simp: case_prod_beta)
  finally show ?case .
qed

lemma cap_outliers_columns:
  assumes "distinct (map fst (columns df))"
  shows "cap_outliers df
     = \<lparr> index = index df,
         columns = map (\<lambda>(m, t). if dtype t = Float64 then (m, cap_column (index df) t) else (m, t))
                     (columns df) \<rparr>"
proof -
  let ?ns = "map fst (numeric_cols df)"
  have dn: "distinct ?ns"
    unfolding numeric_cols_def using assms by (rule distinct_map_filter)
  have sub: "set ?ns \<subseteq> fst ` set (columns df)"
    by (auto simp: numeric_cols_def)
  have in_ns: "\<And>m t. (m, t) \<in> set (columns df) \<Longrightarrow> m \<in> set ?ns \<longleftrightarrow> dtype t = Float64"
  proof -
    fix m t assume mt: "(m, t) \<in> set (columns df)"
    show "m \<in> set ?ns \<longleftrightarrow> dtype t = Float64"
    proof
      assume "m \<in> set ?ns"
      then obtain t' where t': "(m, t') \<in> set (columns df)" "dtype t' = Float64"
        by (auto simp: numeric_cols_def)
      with mt assms have "t' = t" by (metis map_of_is_SomeI option.inject)
      with t' show "dtype t = Float64" by simp
    next
      assume "dtype t = Float64"
      with mt show "m \<in> set ?ns" by (force simp: numeric_cols_def)
    qed
  qed
  have "cap_outliers df
      = \<lparr> index = index df,
          columns = map (\<lambda>(m, t). if m \<in> set ?ns then (m, cap_column (index df) t) else (m, t))
                      (columns df) \<rparr>"
  proof -
    have df: "df = \<lparr> index = index df, columns = columns df \<rparr>" by simp
    show ?thesis
      unfolding cap_outliers_def
      by (subst df, subst cap_fold_columns [OF assms dn sub, of "index df"]) simp
  qed
  also have "map (\<lambda>(m, t). if m \<in> set ?ns then (m, cap_column (index df) t) else (m, t))
                (columns df)
      = map (\<lambda>(m, t). if dtype t = Float64 then (m, cap_column (index df) t) else (m, t))
          (columns df)"
    using in_ns by (intro map_cong refl) auto
  finally show ?thesis .
qed

lemma dropna_empty:
  "length idx = length cs \<Longrightarrow> dropna idx cs = [] \<longleftrightarrow> present cs = []"
  using dropna_present [of idx cs] by (metis map_is_Nil_conv)

lemma cap_column_record:
  assumes "length idx = length (cells s)"
  shows "cap_column idx s
     = (if present (cells s) \<noteq> []
        then s\<lparr> cells := map (capped (fst (iqr_fences (present (cells s))))
                                 (snd (iqr_fences (present (cells s))))) (cells s) \<rparr>
        else s)"
proof (cases "present (cells s) = []")
  case True
  then have "dropna idx (cells s) = []" using dropna_empty [OF assms] by simp
  with True show ?thesis by (simp add: cap_column_def)
next
  case False
  have "cap_column idx s = s\<lparr> cells := cells (cap_column idx s) \<rparr>"
    by (simp add: cap_column_def Let_def case_prod_beta)
  with False cap_column_cells [OF assms False] show ?thesis by simp
qed

lemma cap_outliers_capped:
  assumes "wf_table df"
  shows "cap_outliers df
     = \<lparr> index = index df,
         columns = map (\<lambda>(n, s).
             if dtype s = Float64 \<and> present (cells s) \<noteq> []
             then (n, s\<lparr> cells := map (capped (fst (iqr_fences (present (cells s))))
                                          (snd (iqr_fences (present (cells s))))) (cells s) \<rparr>)
             else (n, s)) (columns df) \<rparr>"
proof -
  from assms have d: "distinct (map fst (columns df))"
    and l: "\<forall>c \<in> set (columns df). length (index df) = length (cells (snd c))"
    by (simp_all add: wf_table_def list_all_iff)
  have "map (\<lambda>(m, t). if dtype t = Float64 then (m, cap_column (index df) t) else (m, t))
          (columns df)
      = map (\<lambda>(n, s).
             if dtype s = Float64 \<and> present (cells s) \<noteq> []
             then (n, s\<lparr> cells := map (capped (fst (iqr_fences (present (cells s))))
                                          (snd (iqr_fences (present (cells s))))) (cells s) \<rparr>)
             else (n, s)) (columns df)"
    using l by (intro map_cong refl) (auto simp: cap_column_record)
  then show ?thesis unfolding cap_outliers_columns [OF d] by simp
qed

text \<open>
  C2, as amended. When the Outlier Treater is invoked without an AnalysisReport, or with
  one that has no outlier section, it returns the table as it is: neither the row
  removal nor the IQR capping runs. The capping phase runs once a report with an outlier
  section is given; when that section names no row to remove, the result is the
  (well-formed) table in which every numeric column with at least one value has each
  value below its lower IQR bound replaced by that bound and each value above its upper
  IQR bound replaced by that bound, the bounds being those of that column, and in which
  every other cell, column and row label is unchanged.
\<close>

theorem handle_outliers_needs_report:
  "handle_outliers df None = Inr (False, df)
   \<and> (rp_outliers r = None \<longrightarrow> handle_outliers df (Some r) = Inr (False, df))
   \<and> (wf_table df
        \<and> (rp_outliers r = Some (OutlierMessage m)
            \<or> (rp_outliers r = Some (OutlierReport st ml comb) \<and> all_outlier_indices comb = {}))
        \<longrightarrow> handle_outliers df (Some r)
            = Inr (False,
                \<lparr> index = index df,
                  columns = map (\<lambda>(n, s).
                      if dtype s = Float64 \<and> present (cells s) \<noteq> []
                      then (n, s\<lparr> cells := map (capped (fst (iqr_fences (present (cells s))))
                                                   (snd (iqr_fences (present (cells s)))))
                                              (cells s) \<rparr>)
                      else (n, s)) (columns df) \<rparr>))"
proof (intro conjI impI)
  show "handle_outliers df None = Inr (False, df)"
    by (simp add: handle_outliers_def)
  show "handle_outliers df (Some r) = Inr (False, df)" if "rp_outliers r = None"
    using that by (simp add: handle_outliers_def)
next
  assume a: "wf_table df
        \<and> (rp_outliers r = Some (OutlierMessage m)
            \<or> (rp_outliers r = Some (OutlierReport st ml comb) \<and> all_outlier_indices comb = {}))"
  then have "handle_outliers df (Some r) = Inr (False, cap_outliers df)"
    by (auto simp: handle_outliers_def)
  with a show "handle_outliers df (Some r)
            = Inr (False,
                \<lparr> index = index df,
                  columns = map (\<lambda>(n, s).
                      if dtype s = Float64 \<and> present (cells s) \<noteq> []
                      then (n, s\<lparr> cells := map (capped (fst (iqr_fences (present (cells s))))
                                                   (snd (iqr_fences (present (cells s)))))
                                              (cells s) \<rparr>)
                      else (n, s)) (columns df) \<rparr>)"
    using cap_outliers_capped [of df] by simp
qed

lemma mixed_fences:
  "iqr_fences (present [Num 0, Num 0, Num 0, Num 100, Null]) = (- 37.5, 62.5)"
  "iqr_fences (present [Num (- 100), Num 0, Null, Num 0, Num 0]) = (- 62.5, 37.5)"
  by (simp_all add: iqr_fences_def quantile_def present_def Let_def)

theorem handle_outliers_needs_report_witness:
  "rp_outliers \<lparr> rp_missing_data = None, rp_outliers = None \<rparr> = None
   \<and> handle_outliers mixed_table (Some \<lparr> rp_missing_data = None, rp_outliers = None \<rparr>)
       = Inr (False, mixed_table)
   \<and> wf_table mixed_table
   \<and> rp_outliers \<lparr> rp_missing_data = None, rp_outliers = Some (OutlierMessage ''none'') \<rparr>
       = Some (OutlierMessage ''none'')
   \<and> handle_outliers mixed_table
         (Some \<lparr> rp_missing_data = None, rp_outliers = Some (OutlierMessage ''none'') \<rparr>)
       = Inr (False,
           \<lparr> index = [0, 1, 2, 3, 4],
             columns = [(''x'', \<lparr> dtype = Float64,
                           cells = [Num 0, Num 0, Num 0, Num 62.5, Null] \<rparr>),
                        (''t'', \<lparr> dtype = Object,
                           cells = [Str ''a'', Str ''b'', Str ''c'', Str ''d'', Null] \<rparr>),
                        (''y'', \<lparr> dtype = Float64,
                           cells = [Num (- 62.5), Num 0, Null, Num 0, Num 0] \<rparr>)] \<rparr>)"
proof -
  let ?r0 = "\<lparr> rp_missing_data = None, rp_outliers = None \<rparr>"
  let ?r1 = "\<lparr> rp_missing_data = None, rp_outliers = Some (OutlierMessage ''none'') \<rparr>"
  note th = handle_outliers_needs_report
  have a: "rp_outliers ?r0 = None" by simp
  have b: "rp_outliers ?r1 = Some (OutlierMessage ''none'')" by simp
  have w: "wf_table mixed_table" by (simp add: wf_table_def mixed_table_def)
  have c: "handle_outliers mixed_table (Some ?r0) = Inr (False, mixed_table)"
    using th [of mixed_table ?r0] a by blast
  have "handle_outliers mixed_table (Some ?r1)
      = Inr (False,
          \<lparr> index = index mixed_table,
            columns = map (\<lambda>(n, s).
                if dtype s = Float64 \<and> present (cells s) \<noteq> []
                then (n, s\<lparr> cells := map (capped (fst (iqr_fences (present (cells s))))
                                             (snd (iqr_fences (present (cells s)))))
                                        (cells s) \<rparr>)
                else (n, s)) (columns mixed_table) \<rparr>)"
    using th [of mixed_table ?r1 "''none''"] b w by blast
  then have d: "handle_outliers mixed_table (Some ?r1)
      = Inr (False,
           \<lparr> index = [0, 1, 2, 3, 4],
             columns = [(''x'', \<lparr> dtype = Float64,
                           cells = [Num 0, Num 0, Num 0, Num 62.5, Null] \<rparr>),
                        (''t'', \<lparr> dtype = Object,
                           cells = [Str ''a'', Str ''b'', Str ''c'', Str ''d'', Null] \<rparr>),
                        (''y'', \<lparr> dtype = Float64,
                           cells = [Num (- 62.5), Num 0, Null, Num 0, Num 0] \<rparr>)] \<rparr>)"
    by (simp add: mixed_table_def mixed_fences capped_def) (simp add: present_def)
  from a b w c d show ?thesis by blast
qed

lemma spike_capped:
  "cap_outliers spike_table
     = \<lparr> index = [0, 1, 2, 3],
         columns = [(''x'', \<lparr> dtype = Float64, cells = [Num 0, Num 0, Num 0, Num 62.5] \<rparr>)] \<rparr>"
  by (simp add: cap_outliers_def numeric_cols_def spike_table_def get_col_def set_col_def
      col_names_def cap_column_def dropna_def spike_series_def iqr_fences_def quantile_def Let_def
      clip_def)

theorem no_report_no_capping_counterexample:
  "handle_outliers spike_table None = Inr (False, spike_table)
   \<and> get_col spike_table ''x'' = Some \<lparr> dtype = Float64, cells = [Num 0, Num 0, Num 0, Num 100] \<rparr>
   \<and> iqr_fences (present [Num 0, Num 0, Num 0, Num 100]) = (- 37.5, 62.5)
   \<and> get_col (cap_outliers spike_table) ''x''
       = Some \<lparr> dtype = Float64, cells = [Num 0, Num 0, Num 0, Num 62.5] \<rparr>"
proof -
  have a: "handle_outliers spike_table None = Inr (False, spike_table)"
    by (simp add: handle_outliers_def)
  have b: "get_col spike_table ''x'' = Some \<lparr> dtype = Float64, cells = [Num 0, Num 0, Num 0, Num 100] \<rparr>"
    by (simp add: get_col_def spike_table_def spike_series_def)
  have c: "iqr_fences (present [Num 0, Num 0, Num 0, Num 100]) = (- 37.5, 62.5)"
    by (simp add: iqr_fences_def quantile_def present_def Let_def)
  have d: "get_col (cap_outliers spike_table) ''x''
       = Some \<lparr> dtype = Float64, cells = [Num 0, Num 0, Num 0, Num 62.5] \<rparr>"
    unfolding spike_capped by (simp add: get_col_def)
  from a b c d show ?thesis by blast
qed

subsection \<open>A column chosen for dropping\<close>

lemma percent_two_thirds: "dscale (ddiv 2 3) 100 = Fin (2345624805922133 / 2 ^ 45)"
  using round_double_scaled [of "2 / 3" 53]
    round_double_scaled [of "6004799503160661 / 2 ^ 53 * 100" 46]
  by (simp add: ddiv_def round_half_even_def)

lemma percent_none_of_three: "dscale (ddiv 0 3) 100 = Fin 0"
  using percent_zero [of 3] by simp

text \<open>
  C3. In \<open>sparse_table\<close> column \<open>a\<close> has two nulls among three values (66.7%), so the
  method selected for it is \<open>drop_column\<close>. The column is removed, but the empty Series
  that \<open>_apply_imputation\<close> returns is then stored under the same name: when the
  missing-data stage returns, the table still has a column \<open>a\<close>, now last and all null.
\<close>

theorem dropped_column_is_stored_again:
  "select_imputation_method sparse_table ''a'' 2 (cleaner_analyze_missing_data sparse_table)
     = Inr ''drop_column''
   \<and> handle_missing_data L sparse_table None
     = Inr \<lparr> index = [0, 1, 2],
             columns = [(''b'', \<lparr> dtype = Float64, cells = [Num 1, Num 2, Num 3] \<rparr>),
                        (''a'', \<lparr> dtype = empty_series_dtype L, cells = [Null, Null, Null] \<rparr>)] \<rparr>"
  by (simp add: handle_missing_data_def cleaner_analyze_missing_data_def sparse_table_def
      col_names_def get_col_def isnull_sum_def select_imputation_method_def len_df_def
      percent_two_thirds percent_none_of_three
      apply_imputation_def drop_columns_def setitem_def set_col_def reindex_def Let_def)

subsection \<open>The input table of the pipeline\<close>

lemma keeps_below_trans:
  assumes "keeps_below N st0 (r, st1)" and "keeps_below N st1 res"
  shows "keeps_below N st0 res"
  using assms by (simp add: keeps_below_def)

lemma and_then_keeps:
  assumes "keeps_below N st0 res"
    and "\<And>c st. N \<le> c \<Longrightarrow> N \<le> next_ref st \<Longrightarrow> keeps_below N st (op c st)"
  shows "keeps_below N st0 (and_then res op)"
proof (cases res)
  case (Pair r st1)
  show ?thesis
  proof (cases r)
    case (Inl e)
    with Pair assms(1) show ?thesis by (simp add: and_then_def)
  next
    case (Inr c)
    with Pair assms(1) have "N \<le> c" "N \<le> next_ref st1"
      by (simp_all add: keeps_below_def)
    then have "keeps_below N st1 (op c st1)" by (rule assms(2))
    with assms(1) Pair Inr show ?thesis
      by (simp add: and_then_def keeps_below_def)
  qed
qed

lemma in_place_keeps:
  "N \<le> c \<Longrightarrow> N \<le> next_ref st \<Longrightarrow> keeps_below N st (in_place f c st)"
  by (auto simp: in_place_def keeps_below_def split: option.splits sum.splits)

lemma as_new_keeps:
  "N \<le> next_ref st \<Longrightarrow> keeps_below N st (as_new f c st)"
  by (auto simp: as_new_def new_frame_def keeps_below_def split: option.splits sum.splits)

lemma handle_outliers_st_keeps:
  "N \<le> c \<Longrightarrow> N \<le> next_ref st \<Longrightarrow> keeps_below N st (handle_outliers_st analysis c st)"
  by (auto simp: handle_outliers_st_def new_frame_def keeps_below_def
      split: option.splits sum.splits)

lemma clean_dataset_keeps:
  "keeps_below (next_ref st) st (clean_dataset L analysis df st)"
  unfolding clean_dataset_def
  by (intro and_then_keeps in_place_keeps as_new_keeps handle_outliers_st_keeps order_refl)

text \<open>
  C10. Running the full cleaning pipeline leaves the caller's input table unchanged:
  \<open>clean_dataset\<close> copies it first, and every stage changes the copy or a table made
  from it. After the call (whether it returned or raised) the caller's reference, and
  every other table that existed before the call, denotes the same table as before.
\<close>

theorem clean_dataset_leaves_input:
  assumes "wf_store st" and "frames st df = Some t"
  shows "frames (snd (clean_dataset L analysis df st)) df = Some t
       \<and> (\<forall>a t'. frames st a = Some t' \<longrightarrow>
             frames (snd (clean_dataset L analysis df st)) a = Some t')"
proof -
  have lt: "\<And>a t'. frames st a = Some t' \<Longrightarrow> a < next_ref st"
    using assms(1) by (metis wf_store_def not_le option.distinct(1))
  have k: "\<forall>a < next_ref st. frames (snd (clean_dataset L analysis df st)) a = frames st a"
    using clean_dataset_keeps [of st L analysis df] by (simp add: keeps_below_def)
  show ?thesis using lt k assms(2) by auto
qed

lemma labels_filled:
  "handle_missing_data basic_libs labels_table None = Inr labels_filled_table"
  using percent_zero [of 4]
  by (simp add: handle_missing_data_def cleaner_analyze_missing_data_def labels_table_def
      labels_filled_table_def col_names_def get_col_def isnull_sum_def
      select_imputation_method_def len_df_def percent_quarter is_numeric_dtype_def
      apply_imputation_def fillna_def setitem_def set_col_def reindex_def Let_def)

lemma labels_deduplicated: "remove_duplicates labels_filled_table = labels_unique_table"
  by (simp add: remove_duplicates_def rows_of_def keep_rows_def len_df_def upt_rec
      labels_filled_table_def labels_unique_table_def)

lemma labels_types_kept:
  "standardize_data_types basic_libs labels_unique_table = Inr labels_unique_table"
  by (simp add: standardize_data_types_def col_names_def get_col_def suggest_optimal_dtype_def
      numeric_count_def numeric_ok_def basic_libs_def fdiv_def nunique_def dtype_str_def Let_def
      labels_unique_table_def card_insert_if)

lemma labels_strings_kept:
  "handle_inconsistencies basic_libs labels_unique_table = Inr labels_unique_table"
  by (simp add: handle_inconsistencies_def col_names_def get_col_def set_col_def basic_libs_def
      standardize_case_def standardize_strings_def str_map_def abbreviations_def
      labels_unique_table_def)

lemma labels_encoded:
  "apply_transformations basic_libs labels_unique_table = Inr labels_encoded_table"
  by (simp add: apply_transformations_def numeric_cols_def encode_loop_def get_col_def set_col_def
      col_names_def nunique_def basic_libs_def cell_str_def sort_strs_def Let_def
      labels_unique_table_def labels_encoded_table_def card_insert_if)

lemma labels_run:
  "clean_dataset basic_libs None 0 labels_store
     = (Inr 2,
        \<lparr> frames = [0 \<mapsto> labels_table, 1 \<mapsto> labels_filled_table, 2 \<mapsto> labels_encoded_table],
          next_ref = 3 \<rparr>)"
  by (simp add: clean_dataset_def and_then_def as_new_def in_place_def handle_outliers_st_def
      new_frame_def labels_store_def labels_filled handle_outliers_def labels_deduplicated
      labels_types_kept labels_strings_kept labels_encoded numeral_2_eq_2 numeral_3_eq_3)

lemma labels_store_result: "fst (clean_dataset basic_libs None 0 labels_store) = Inr 2"
  by (simp add: labels_run)

lemma labels_store_cleaned:
  "frames (snd (clean_dataset basic_libs None 0 labels_store)) 2
     = Some \<lparr> index = [0, 1, 3],
              columns = [(''a'', \<lparr> dtype = Float64, cells = [Num 1, Num 0, Num 2] \<rparr>),
                         (''b'', \<lparr> dtype = Float64, cells = [Num 0, Num 1, Num 0] \<rparr>)] \<rparr>"
  by (simp add: labels_run labels_encoded_table_def)

theorem clean_dataset_leaves_input_witness:
  "wf_store labels_store \<and> frames labels_store 0 = Some labels_table
   \<and> fst (clean_dataset basic_libs None 0 labels_store) = Inr 2
   \<and> frames (snd (clean_dataset basic_libs None 0 labels_store)) 0 = Some labels_table
   \<and> frames (snd (clean_dataset basic_libs None 0 labels_store)) 2
       = Some \<lparr> index = [0, 1, 3],
                columns = [(''a'', \<lparr> dtype = Float64, cells = [Num 1, Num 0, Num 2] \<rparr>),
                           (''b'', \<lparr> dtype = Float64, cells = [Num 0, Num 1, Num 0] \<rparr>)] \<rparr>"
proof -
  have a: "wf_store labels_store" by (simp add: wf_store_def labels_store_def)
  have b: "frames labels_store 0 = Some labels_table" by (simp add: labels_store_def)
  have c: "frames (snd (clean_dataset basic_libs None 0 labels_store)) 0 = Some labels_table"
    using clean_dataset_leaves_input [OF a b] by blast
  from a b c labels_store_result labels_store_cleaned show ?thesis by blast
qed

end
